theory Spec2Isabelle
  imports Complex_Main "HOL-Library.Monad_Syntax"
begin

section \<open>Sequences with guarded element access\<close>

text \<open>
  Modelled from the spec: the dense sequence type \<open>aol::Vector\<close> (declared in vec.h, which is
  not among the sources) that stores the "parallel sequences" of the assembly matrix and the
  index, pointer and value arrays of the compressed matrices. A vector is a list; \<open>Vector(n)\<close>
  is the zero-filled list of length \<open>n\<close>; \<open>pushBack\<close> appends; \<open>erase(i)\<close> physically removes
  the element at position \<open>i\<close> and moves the later ones down by one. An element access outside
  \<open>[0, size)\<close> is undefined in a release build and raises in a range-checked build: both are
  the value \<open>None\<close> here, so that every function that touches a sequence is total.
\<close>

definition size_v :: "'a list \<Rightarrow> int" where
  "size_v xs = int (length xs)"

definition elem :: "'a list \<Rightarrow> int \<Rightarrow> 'a option" where
  "elem xs i = (if 0 \<le> i \<and> i < size_v xs then Some (xs ! nat i) else None)"

definition upd :: "'a list \<Rightarrow> int \<Rightarrow> 'a \<Rightarrow> 'a list option" where
  "upd xs i v = (if 0 \<le> i \<and> i < size_v xs then Some (xs[nat i := v]) else None)"

definition erase :: "'a list \<Rightarrow> int \<Rightarrow> 'a list option" where
  "erase xs i =
     (if 0 \<le> i \<and> i < size_v xs then Some (take (nat i) xs @ drop (Suc (nat i)) xs) else None)"

definition pushBack :: "'a list \<Rightarrow> 'a \<Rightarrow> 'a list" where
  "pushBack xs v = xs @ [v]"

definition Vector :: "int \<Rightarrow> 'a::zero list" where
  "Vector n = replicate (nat n) 0"

text \<open>
  \<open>for ( int i = i0; i < n; ++i ) body\<close> with a bound that the body does not change. The body
  maps the loop state to the next one, or to \<open>None\<close> when it reads or writes out of range,
  which ends the loop.
\<close>

function for_loop :: "int \<Rightarrow> int \<Rightarrow> (int \<Rightarrow> 's \<Rightarrow> 's option) \<Rightarrow> 's \<Rightarrow> 's option" where
  "for_loop i n body s =
     (if i < n then (case body i s of None \<Rightarrow> None | Some s' \<Rightarrow> for_loop (i + 1) n body s')
      else Some s)"
  by pat_completeness auto
termination
  by (relation "measure (\<lambda>(i, n, body, s). nat (n - i))") auto

declare for_loop.simps [simp del]

section \<open>TripletMatrix\<close>

text \<open>The dimensions held by the base class \<open>Matrix\<close>.\<close>

record Matrix =
  numRows :: int
  numCols :: int

text \<open>
  \<open>TripletMatrix\<close>: the three parallel vectors \<open>_rowIndex\<close>, \<open>_colIndex\<close> and \<open>_value\<close>.
  \<open>DataType\<close> is the type parameter \<open>'a\<close>.
\<close>

record 'a TripletMatrix = Matrix +
  t_rowIndex :: "int list"
  t_colIndex :: "int list"
  t_value :: "'a list"

text \<open>
  \<open>TripletMatrix::add\<close>, in a build without \<open>BOUNDS_CHECK\<close> (the release configuration, where
  the two range tests are compiled out): three unconditional \<open>pushBack\<close>s.
\<close>

definition TripletMatrix_add :: "'a TripletMatrix \<Rightarrow> int \<Rightarrow> int \<Rightarrow> 'a \<Rightarrow> 'a TripletMatrix" where
  "TripletMatrix_add A i j v =
     A\<lparr>t_rowIndex := pushBack (t_rowIndex A) i,
       t_colIndex := pushBack (t_colIndex A) j,
       t_value := pushBack (t_value A) v\<rparr>"

text \<open>\<open>TripletMatrix::get\<close>: the sum of the values of all triples at \<open>(row, col)\<close>.\<close>

definition TripletMatrix_get :: "'a::{zero,plus} TripletMatrix \<Rightarrow> int \<Rightarrow> int \<Rightarrow> 'a option" where
  "TripletMatrix_get A row col =
     for_loop 0 (size_v (t_rowIndex A))
       (\<lambda>i ret. do {
          r \<leftarrow> elem (t_rowIndex A) i;
          if r = row then do {
            c \<leftarrow> elem (t_colIndex A) i;
            if c = col then do { v \<leftarrow> elem (t_value A) i; Some (ret + v) } else Some ret }
          else Some ret })
       0"

text \<open>\<open>TripletMatrix::setEntryToZero\<close>: every triple at \<open>(row, col)\<close> gets the value zero.\<close>

definition setEntryToZero :: "'a::zero TripletMatrix \<Rightarrow> int \<Rightarrow> int \<Rightarrow> 'a TripletMatrix option" where
  "setEntryToZero A row col = do {
     vs \<leftarrow> for_loop 0 (size_v (t_rowIndex A))
       (\<lambda>k vs. do {
          r \<leftarrow> elem (t_rowIndex A) k;
          if r = row then do {
            c \<leftarrow> elem (t_colIndex A) k;
            if c = col then upd vs k 0 else Some vs }
          else Some vs })
       (t_value A);
     Some (A\<lparr>t_value := vs\<rparr>) }"

text \<open>\<open>TripletMatrix::set\<close>: \<open>setEntryToZero\<close>, then \<open>add\<close>.\<close>

definition TripletMatrix_set :: "'a::zero TripletMatrix \<Rightarrow> int \<Rightarrow> int \<Rightarrow> 'a \<Rightarrow> 'a TripletMatrix option" where
  "TripletMatrix_set A row col v = do {
     A' \<leftarrow> setEntryToZero A row col;
     Some (TripletMatrix_add A' row col v) }"

text \<open>
  \<open>TripletMatrix::removeZeroEntries\<close>. The bound \<open>_value.size ()\<close> is read again in every
  round and the counter is incremented in every round, also after an \<open>erase\<close>.
\<close>

function removeZeroEntries_loop :: "'a::zero TripletMatrix \<Rightarrow> int \<Rightarrow> 'a TripletMatrix option" where
  "removeZeroEntries_loop A i =
     (if i < size_v (t_value A) then do {
        v \<leftarrow> elem (t_value A) i;
        if v = 0 then do {
          rs \<leftarrow> erase (t_rowIndex A) i;
          cs \<leftarrow> erase (t_colIndex A) i;
          vs \<leftarrow> erase (t_value A) i;
          removeZeroEntries_loop (A\<lparr>t_rowIndex := rs, t_colIndex := cs, t_value := vs\<rparr>) (i + 1) }
        else removeZeroEntries_loop A (i + 1) }
      else Some A)"
  by pat_completeness auto
termination
  by (relation "measure (\<lambda>(A, i). nat (size_v (t_value A) - i))")
     (auto simp: erase_def size_v_def split: if_splits)

declare removeZeroEntries_loop.simps [simp del]

definition removeZeroEntries :: "'a::zero TripletMatrix \<Rightarrow> 'a TripletMatrix option" where
  "removeZeroEntries A = removeZeroEntries_loop A 0"

text \<open>
  \<open>TripletMatrix::eraseValue\<close>, the sibling removal loop: the counter is incremented only when
  the element at \<open>k\<close> has not been removed.
\<close>

function eraseValue_loop :: "'a TripletMatrix \<Rightarrow> int \<Rightarrow> int \<Rightarrow> int \<Rightarrow> 'a TripletMatrix option" where
  "eraseValue_loop A row col k =
     (if k < size_v (t_rowIndex A) then do {
        r \<leftarrow> elem (t_rowIndex A) k;
        found \<leftarrow> (if r = row then do { c \<leftarrow> elem (t_colIndex A) k; Some (c = col) } else Some False);
        if found then do {
          rs \<leftarrow> erase (t_rowIndex A) k;
          cs \<leftarrow> erase (t_colIndex A) k;
          vs \<leftarrow> erase (t_value A) k;
          eraseValue_loop (A\<lparr>t_rowIndex := rs, t_colIndex := cs, t_value := vs\<rparr>) row col k }
        else eraseValue_loop A row col (k + 1) }
      else Some A)"
  by pat_completeness auto
termination
  by (relation "measure (\<lambda>(A, row, col, k). nat (size_v (t_rowIndex A) - k))")
     (auto simp: erase_def size_v_def split: if_splits)

declare eraseValue_loop.simps [simp del]

definition eraseValue :: "'a TripletMatrix \<Rightarrow> int \<Rightarrow> int \<Rightarrow> 'a TripletMatrix option" where
  "eraseValue A row col = eraseValue_loop A row col 0"

text \<open>
  The conversion of a stored \<open>int\<close> index for its comparison with the \<open>unsigned int\<close> argument
  of \<open>removeRowCol\<close>.
\<close>

definition to_unsigned :: "int \<Rightarrow> int" where
  "to_unsigned x = x mod 2 ^ 32"

text \<open>
  \<open>TripletMatrix::removeRowCol\<close>. As in \<open>removeZeroEntries\<close>, the counter is incremented in
  every round. The second test of \<open>||\<close> is evaluated only when the first fails.
\<close>

function removeRowCol_loop :: "'a TripletMatrix \<Rightarrow> int \<Rightarrow> int \<Rightarrow> 'a TripletMatrix option" where
  "removeRowCol_loop A i k =
     (if k < size_v (t_rowIndex A) then do {
        r \<leftarrow> elem (t_rowIndex A) k;
        found \<leftarrow> (if to_unsigned r = i then Some True
                  else do { c \<leftarrow> elem (t_colIndex A) k; Some (to_unsigned c = i) });
        if found then do {
          rs \<leftarrow> erase (t_rowIndex A) k;
          cs \<leftarrow> erase (t_colIndex A) k;
          vs \<leftarrow> erase (t_value A) k;
          removeRowCol_loop (A\<lparr>t_rowIndex := rs, t_colIndex := cs, t_value := vs\<rparr>) i (k + 1) }
        else do {
          rs \<leftarrow> (if to_unsigned r > i then upd (t_rowIndex A) k (r - 1) else Some (t_rowIndex A));
          c \<leftarrow> elem (t_colIndex A) k;
          cs \<leftarrow> (if to_unsigned c > i then upd (t_colIndex A) k (c - 1) else Some (t_colIndex A));
          removeRowCol_loop (A\<lparr>t_rowIndex := rs, t_colIndex := cs\<rparr>) i (k + 1) } }
      else Some A)"
  by pat_completeness auto
termination
  by (relation "measure (\<lambda>(A, i, k). nat (size_v (t_rowIndex A) - k))")
     (auto simp: erase_def upd_def size_v_def split: if_splits)

declare removeRowCol_loop.simps [simp del]

definition removeRowCol :: "'a TripletMatrix \<Rightarrow> int \<Rightarrow> 'a TripletMatrix option" where
  "removeRowCol A i = removeRowCol_loop A i 0"

text \<open>
  \<open>RowColIndexSorter::operator()\<close>: entry \<open>i\<close> comes before entry \<open>j\<close> when its row is smaller,
  or the rows are equal and its column is smaller.
\<close>

definition RowColIndexSorter :: "'a TripletMatrix \<Rightarrow> int \<Rightarrow> int \<Rightarrow> bool option" where
  "RowColIndexSorter A i j = do {
     ri \<leftarrow> elem (t_rowIndex A) i;
     rj \<leftarrow> elem (t_rowIndex A) j;
     if ri < rj then Some True
     else if ri = rj then do {
       ci \<leftarrow> elem (t_colIndex A) i;
       cj \<leftarrow> elem (t_colIndex A) j;
       Some (ci < cj) }
     else Some False }"

text \<open>
  \<open>std::sort\<close> with a comparator. The standard fixes the result up to the order of elements
  that the comparator does not separate; the model is the straight insertion sort that the
  GNU implementation runs on ranges of at most sixteen elements: each element moves towards
  the front past the elements that it is strictly smaller than. The sorted front part is
  kept in reverse. \<open>sumDuplicates_sorted\<close> below takes the sorted index vector as an argument,
  so that a result can also be stated for any other order.
\<close>

fun linear_insert :: "(int \<Rightarrow> int \<Rightarrow> bool option) \<Rightarrow> int \<Rightarrow> int list \<Rightarrow> int list option" where
  "linear_insert cmp x [] = Some [x]"
| "linear_insert cmp x (y # ys) = do {
     b \<leftarrow> cmp x y;
     if b then do { zs \<leftarrow> linear_insert cmp x ys; Some (y # zs) }
     else Some (x # y # ys) }"

fun insertion_sort :: "(int \<Rightarrow> int \<Rightarrow> bool option) \<Rightarrow> int list \<Rightarrow> int list \<Rightarrow> int list option" where
  "insertion_sort cmp front [] = Some (rev front)"
| "insertion_sort cmp front (x # xs) = do {
     front' \<leftarrow> linear_insert cmp x front;
     insertion_sort cmp front' xs }"

definition std_sort :: "(int \<Rightarrow> int \<Rightarrow> bool option) \<Rightarrow> int list \<Rightarrow> int list option" where
  "std_sort cmp xs = insertion_sort cmp [] xs"

text \<open>
  The index vector \<open>index[i] = i\<close> of \<open>sumDuplicates\<close> and \<open>getIndexSorting\<close>.
\<close>

definition identity_index :: "int \<Rightarrow> int list" where
  "identity_index n = map int [0..<nat n]"

text \<open>
  \<open>index.size () - 1\<close> is computed in \<open>size_t\<close>, an unsigned type of 64 bits: for the empty
  vector it is \<open>2 ^ 64 - 1\<close>.
\<close>

definition size_t_minus_one :: "int \<Rightarrow> int" where
  "size_t_minus_one n = (n - 1) mod 2 ^ 64"

text \<open>
  The inner loop of \<open>sumDuplicates\<close>: while the entry at sorted position \<open>j\<close> has the
  coordinates of the entry at sorted position \<open>i\<close>, its value is added to that entry and set
  to zero; the loop is left when \<open>++j\<close> reaches \<open>index.size ()\<close>. The result is the value
  vector and \<open>j\<close>. The counters \<open>i\<close> and \<open>j\<close> are \<open>unsigned int\<close>; they stay below the
  size of an \<open>aol::Vector\<close>, which is an \<open>int\<close>, and do not wrap. Each element access is
  guarded, those of the \<open>std::vector\<close> \<open>index\<close> too.
\<close>

function sumDuplicates_inner ::
  "int list \<Rightarrow> 'a::{zero,plus} TripletMatrix \<Rightarrow> 'a list \<Rightarrow> int \<Rightarrow> int \<Rightarrow> ('a list \<times> int) option" where
  "sumDuplicates_inner index A vs i j = do {
     ij \<leftarrow> elem index j;
     ii \<leftarrow> elem index i;
     rj \<leftarrow> elem (t_rowIndex A) ij;
     ri \<leftarrow> elem (t_rowIndex A) ii;
     if rj = ri then do {
       cj \<leftarrow> elem (t_colIndex A) ij;
       ci \<leftarrow> elem (t_colIndex A) ii;
       if cj = ci then do {
         vi \<leftarrow> elem vs ii;
         vj \<leftarrow> elem vs ij;
         vs1 \<leftarrow> upd vs ii (vi + vj);
         vs2 \<leftarrow> upd vs1 ij 0;
         if j + 1 \<ge> size_v index then Some (vs2, j + 1)
         else sumDuplicates_inner index A vs2 i (j + 1) }
       else Some (vs, j) }
     else Some (vs, j) }"
  by pat_completeness auto
termination
  by (relation "measure (\<lambda>(index, A, vs, i, j). nat (size_v index - j))") auto

declare sumDuplicates_inner.simps [simp del]

text \<open>
  The inner loop reads \<open>index[j]\<close> first and hands back a \<open>j\<close> that is not smaller than the
  one it started from: this is what makes the outer loop end.
\<close>

lemma sumDuplicates_inner_advances:
  "sumDuplicates_inner index A vs i j = Some (vs', j') \<Longrightarrow> j \<le> j' \<and> j < size_v index"
proof (induction index A vs i j arbitrary: vs' j' rule: sumDuplicates_inner.induct)
  case (1 index A vs i j)
  from "1.prems" obtain ij where "elem index j = Some ij"
    by (subst (asm) sumDuplicates_inner.simps) (simp split: Option.bind_splits)
  then have bnd: "0 \<le> j \<and> j < size_v index"
    by (simp add: elem_def split: if_splits)
  from "1.prems" have
    "(j' = j \<or> j' = j + 1) \<or>
     (\<exists>ij ii rj ri cj ci vi vj vs1 vs2.
        elem index j = Some ij \<and> elem index i = Some ii \<and>
        elem (t_rowIndex A) ij = Some rj \<and> elem (t_rowIndex A) ii = Some ri \<and> rj = ri \<and>
        elem (t_colIndex A) ij = Some cj \<and> elem (t_colIndex A) ii = Some ci \<and> cj = ci \<and>
        elem vs ii = Some vi \<and> elem vs ij = Some vj \<and>
        upd vs ii (vi + vj) = Some vs1 \<and> upd vs1 ij 0 = Some vs2 \<and>
        \<not> size_v index \<le> j + 1 \<and>
        sumDuplicates_inner index A vs2 i (j + 1) = Some (vs', j'))"
    by (subst (asm) sumDuplicates_inner.simps) (simp split: Option.bind_splits if_splits)
  then show ?case
  proof (elim disjE exE conjE)
    fix ij ii rj ri cj ci vi vj vs1 vs2
    assume "elem index j = Some ij" "elem index i = Some ii"
      "elem (t_rowIndex A) ij = Some rj" "elem (t_rowIndex A) ii = Some ri" "rj = ri"
      "elem (t_colIndex A) ij = Some cj" "elem (t_colIndex A) ii = Some ci" "cj = ci"
      "elem vs ii = Some vi" "elem vs ij = Some vj"
      "upd vs ii (vi + vj) = Some vs1" "upd vs1 ij 0 = Some vs2"
      "\<not> size_v index \<le> j + 1"
      "sumDuplicates_inner index A vs2 i (j + 1) = Some (vs', j')"
    then have "j + 1 \<le> j' \<and> j + 1 < size_v index"
      by (rule "1.IH")
    with bnd show ?thesis
      by simp
  qed (use bnd in simp_all)
qed

text \<open>
  The outer loop of \<open>sumDuplicates\<close>: \<open>while ( i < index.size () - 1 )\<close>, with
  \<open>j = i + 1\<close> before the inner loop and \<open>i += ( j - i )\<close> after it.
\<close>

function sumDuplicates_outer ::
  "int list \<Rightarrow> 'a::{zero,plus} TripletMatrix \<Rightarrow> 'a list \<Rightarrow> int \<Rightarrow> 'a list option" where
  "sumDuplicates_outer index A vs i =
     (if i < size_t_minus_one (size_v index) then do {
        (vs', j) \<leftarrow> sumDuplicates_inner index A vs i (i + 1);
        sumDuplicates_outer index A vs' (i + (j - i)) }
      else Some vs)"
  by pat_completeness auto
termination
  by (relation "measure (\<lambda>(index, A, vs, i). nat (size_v index - i))")
     (auto dest!: sumDuplicates_inner_advances)

declare sumDuplicates_outer.simps [simp del]

text \<open>
  \<open>TripletMatrix::sumDuplicates\<close> from the sorted index vector on, and as a whole.
\<close>

definition sumDuplicates_sorted ::
  "int list \<Rightarrow> 'a::{zero,plus} TripletMatrix \<Rightarrow> 'a TripletMatrix option" where
  "sumDuplicates_sorted index A = do {
     vs \<leftarrow> sumDuplicates_outer index A (t_value A) 0;
     removeZeroEntries (A\<lparr>t_value := vs\<rparr>) }"

definition sumDuplicates :: "'a::{zero,plus} TripletMatrix \<Rightarrow> 'a TripletMatrix option" where
  "sumDuplicates A = do {
     index \<leftarrow> std_sort (RowColIndexSorter A) (identity_index (size_v (t_rowIndex A)));
     sumDuplicates_sorted index A }"

section \<open>Views of a sub-block of a TripletMatrix\<close>

text \<open>
  \<open>TripletMatrixOffset\<close> and \<open>TripletMatrixOffsetUpperTriangle\<close>: the size of the block and
  its offsets. The view holds a reference \<open>_mat\<close> to a matrix that it does not own; the
  operations of the view take that shared matrix as an argument and return it.
\<close>

record TripletMatrixOffset = Matrix +
  rowOffset :: int
  colOffset :: int

text \<open>\<open>TripletMatrixOffset::add\<close>\<close>

definition TripletMatrixOffset_add ::
  "TripletMatrixOffset \<Rightarrow> 'a TripletMatrix \<Rightarrow> int \<Rightarrow> int \<Rightarrow> 'a \<Rightarrow> 'a TripletMatrix" where
  "TripletMatrixOffset_add V mat row col v =
     TripletMatrix_add mat (row + rowOffset V) (col + colOffset V) v"

text \<open>\<open>TripletMatrixOffsetUpperTriangle::add\<close>\<close>

definition TripletMatrixOffsetUpperTriangle_add ::
  "TripletMatrixOffset \<Rightarrow> 'a TripletMatrix \<Rightarrow> int \<Rightarrow> int \<Rightarrow> 'a \<Rightarrow> 'a TripletMatrix" where
  "TripletMatrixOffsetUpperTriangle_add V mat row col v =
     (if row \<le> col then TripletMatrix_add mat (row + rowOffset V) (col + colOffset V) v
      else mat)"

section \<open>Compressed sparse matrices\<close>

text \<open>
  \<open>CSMatrix\<close>: \<open>_index\<close>, \<open>_indPointer\<close> and \<open>_value\<close>, with \<open>IndexType = int\<close>.
\<close>

record 'a CSMatrix = Matrix +
  cs_index :: "int list"
  cs_indPointer :: "int list"
  cs_value :: "'a list"

text \<open>
  Modelled from the spec: \<open>aol::Vector::resize\<close> (vec.h is not among the sources) keeps the
  elements that fit and fills up with zeros.
\<close>

definition resize :: "'a::zero list \<Rightarrow> int \<Rightarrow> 'a list" where
  "resize xs n = take (nat n) xs @ replicate (nat n - length xs) 0"

text \<open>
  \<open>CSMatrix ( numRows, numCols )\<close>, the constructor that runs before \<open>setFromTriplet\<close> in
  \<open>CSCMatrix ( tripletMatrix )\<close> and \<open>CSRMatrix ( tripletMatrix )\<close>.
\<close>

definition CSMatrix_init :: "int \<Rightarrow> int \<Rightarrow> 'a CSMatrix" where
  "CSMatrix_init nR nC =
     \<lparr>numRows = nR, numCols = nC, cs_index = [], cs_indPointer = Vector (nR + 1), cs_value = []\<rparr>"

text \<open>
  \<open>CSCMatrix::setFromTriplet\<close>, statement by statement: the entries are put into buckets by
  row, duplicates are summed inside each row with the marker vector \<open>t\<close>, and the compacted
  rows are scattered into columns.
\<close>

definition CSC_setFromTriplet :: "'a::{zero,plus} CSMatrix \<Rightarrow> 'a TripletMatrix \<Rightarrow> 'a CSMatrix option" where
  "CSC_setFromTriplet this tripletMatrix =
     (let tripletRow = t_rowIndex tripletMatrix;
          tripletCol = t_colIndex tripletMatrix;
          tripletVal = t_value tripletMatrix;
          nR = numRows this;
          nC = numCols this
      in do {
        \<comment> \<open>Count num. of entries per row\<close>
        t \<leftarrow> for_loop 0 (size_v tripletVal)
          (\<lambda>i t. do { r \<leftarrow> elem tripletRow i; n \<leftarrow> elem t r; upd t r (n + 1) })
          (Vector (max nR nC));
        \<comment> \<open>Set row pointers\<close>
        (rowPointer, t) \<leftarrow> for_loop 0 nC
          (\<lambda>j (rowPointer, t). do {
             a \<leftarrow> elem rowPointer j;
             b \<leftarrow> elem t j;
             rowPointer \<leftarrow> upd rowPointer (j + 1) (a + b);
             a \<leftarrow> elem rowPointer j;
             t \<leftarrow> upd t j a;
             Some (rowPointer, t) })
          (Vector (nR + 1), t);
        \<comment> \<open>Fill matrix\<close>
        (t, colIndex, val) \<leftarrow> for_loop 0 (size_v tripletVal)
          (\<lambda>i (t, colIndex, val). do {
             r \<leftarrow> elem tripletRow i;
             k \<leftarrow> elem t r;
             t \<leftarrow> upd t r (k + 1);
             c \<leftarrow> elem tripletCol i;
             colIndex \<leftarrow> upd colIndex k c;
             v \<leftarrow> elem tripletVal i;
             val \<leftarrow> upd val k v;
             Some (t, colIndex, val) })
          (t, Vector (size_v tripletCol), Vector (size_v tripletVal));
        \<comment> \<open>t.setAll ( -1 )\<close>
        let t = map (\<lambda>_. - 1) t;
        \<comment> \<open>Sum up duplicate entries\<close>
        (t, colIndex, val, rowCount) \<leftarrow> for_loop 0 nR
          (\<lambda>i (t, colIndex, val, rowCount). do {
             p1 \<leftarrow> elem rowPointer i;
             p2 \<leftarrow> elem rowPointer (i + 1);
             (t, colIndex, val, pd) \<leftarrow> for_loop p1 p2
               (\<lambda>p (t, colIndex, val, pd). do {
                  k \<leftarrow> elem colIndex p;
                  pj \<leftarrow> elem t k;
                  if pj < p1 then do {
                    t \<leftarrow> upd t k pd;
                    colIndex \<leftarrow> upd colIndex pd k;
                    v \<leftarrow> elem val p;
                    val \<leftarrow> upd val pd v;
                    Some (t, colIndex, val, pd + 1) }
                  else do {
                    a \<leftarrow> elem val pj;
                    b \<leftarrow> elem val p;
                    val \<leftarrow> upd val pj (a + b);
                    Some (t, colIndex, val, pd) } })
               (t, colIndex, val, p1);
             rowCount \<leftarrow> upd rowCount i (pd - p1);
             Some (t, colIndex, val, rowCount) })
          (t, colIndex, val, Vector nR);
        \<comment> \<open>t.setZero ()\<close>
        let t = map (\<lambda>_. 0) t;
        \<comment> \<open>Count num. of entries per column.\<close>
        t \<leftarrow> for_loop 0 nR
          (\<lambda>i t. do {
             p0 \<leftarrow> elem rowPointer i;
             c \<leftarrow> elem rowCount i;
             for_loop p0 (p0 + c)
               (\<lambda>p t. do { k \<leftarrow> elem colIndex p; n \<leftarrow> elem t k; upd t k (n + 1) })
               t })
          t;
        numEntries \<leftarrow> for_loop 0 (size_v t)
          (\<lambda>i numEntries. do { n \<leftarrow> elem t i; Some (numEntries + n) })
          0;
        let index = resize (cs_index this) numEntries;
        let values = resize (cs_value this) numEntries;
        \<comment> \<open>Set column pointers\<close>
        let indPointer = resize (cs_indPointer this) (nC + 1);
        indPointer \<leftarrow> upd indPointer 0 0;
        (indPointer, t) \<leftarrow> for_loop 0 nC
          (\<lambda>j (indPointer, t). do {
             a \<leftarrow> elem indPointer j;
             b \<leftarrow> elem t j;
             indPointer \<leftarrow> upd indPointer (j + 1) (a + b);
             a \<leftarrow> elem indPointer j;
             t \<leftarrow> upd t j a;
             Some (indPointer, t) })
          (indPointer, t);
        \<comment> \<open>Fill matrix\<close>
        (t, index, values) \<leftarrow> for_loop 0 nR
          (\<lambda>i s. do {
             p0 \<leftarrow> elem rowPointer i;
             c \<leftarrow> elem rowCount i;
             for_loop p0 (p0 + c)
               (\<lambda>p (t, index, values). do {
                  c \<leftarrow> elem colIndex p;
                  k \<leftarrow> elem t c;
                  t \<leftarrow> upd t c (k + 1);
                  index \<leftarrow> upd index k i;
                  v \<leftarrow> elem val p;
                  values \<leftarrow> upd values k v;
                  Some (t, index, values) })
               s })
          (t, index, values);
        Some (this\<lparr>cs_index := index, cs_indPointer := indPointer, cs_value := values\<rparr>) })"

text \<open>\<open>CSCMatrix ( const TripletMatrix &tripletMatrix )\<close>\<close>

definition CSCMatrix :: "'a::{zero,plus} TripletMatrix \<Rightarrow> 'a CSMatrix option" where
  "CSCMatrix tripletMatrix =
     CSC_setFromTriplet (CSMatrix_init (numRows tripletMatrix) (numCols tripletMatrix)) tripletMatrix"

text \<open>
  The scan of \<open>CSCMatrix::get\<close> and \<open>CSRMatrix::get\<close> through one slice: the value at the
  first position whose index is \<open>key\<close>, zero when the end \<open>hi\<close> of the slice is reached.
\<close>

function CSMatrix_find :: "'a::zero CSMatrix \<Rightarrow> int \<Rightarrow> int \<Rightarrow> int \<Rightarrow> 'a option" where
  "CSMatrix_find M key hi i =
     (if i < hi then do {
        x \<leftarrow> elem (cs_index M) i;
        if x = key then elem (cs_value M) i else CSMatrix_find M key hi (i + 1) }
      else Some 0)"
  by pat_completeness auto
termination
  by (relation "measure (\<lambda>(M, key, hi, i). nat (hi - i))") auto

declare CSMatrix_find.simps [simp del]

text \<open>\<open>CSCMatrix::get\<close>: the slice is column \<open>col\<close>, the key is \<open>row\<close>.\<close>

definition CSC_get :: "'a::zero CSMatrix \<Rightarrow> int \<Rightarrow> int \<Rightarrow> 'a option" where
  "CSC_get M row col = do {
     lo \<leftarrow> elem (cs_indPointer M) col;
     hi \<leftarrow> elem (cs_indPointer M) (col + 1);
     CSMatrix_find M row hi lo }"

text \<open>
  \<open>CSRMatrix::setFromTriplet\<close>, statement by statement: the mirror image of the function
  for columns, with buckets by column first.
\<close>

definition CSR_setFromTriplet :: "'a::{zero,plus} CSMatrix \<Rightarrow> 'a TripletMatrix \<Rightarrow> 'a CSMatrix option" where
  "CSR_setFromTriplet this tripletMatrix =
     (let tripletRow = t_rowIndex tripletMatrix;
          tripletCol = t_colIndex tripletMatrix;
          tripletVal = t_value tripletMatrix;
          nR = numRows this;
          nC = numCols this
      in do {
        \<comment> \<open>Count num. of entries per row\<close>
        t \<leftarrow> for_loop 0 (size_v tripletVal)
          (\<lambda>j t. do { c \<leftarrow> elem tripletCol j; n \<leftarrow> elem t c; upd t c (n + 1) })
          (Vector (max nR nC));
        \<comment> \<open>Set column pointers\<close>
        (colPointer, t) \<leftarrow> for_loop 0 nR
          (\<lambda>i (colPointer, t). do {
             a \<leftarrow> elem colPointer i;
             b \<leftarrow> elem t i;
             colPointer \<leftarrow> upd colPointer (i + 1) (a + b);
             a \<leftarrow> elem colPointer i;
             t \<leftarrow> upd t i a;
             Some (colPointer, t) })
          (Vector (nC + 1), t);
        \<comment> \<open>Fill matrix\<close>
        (t, rowIndex, val) \<leftarrow> for_loop 0 (size_v tripletVal)
          (\<lambda>i (t, rowIndex, val). do {
             c \<leftarrow> elem tripletCol i;
             k \<leftarrow> elem t c;
             t \<leftarrow> upd t c (k + 1);
             r \<leftarrow> elem tripletRow i;
             rowIndex \<leftarrow> upd rowIndex k r;
             v \<leftarrow> elem tripletVal i;
             val \<leftarrow> upd val k v;
             Some (t, rowIndex, val) })
          (t, Vector (size_v tripletRow), Vector (size_v tripletVal));
        \<comment> \<open>t.setAll ( -1 )\<close>
        let t = map (\<lambda>_. - 1) t;
        \<comment> \<open>Sum up duplicate entries\<close>
        (t, rowIndex, val, colCount) \<leftarrow> for_loop 0 nC
          (\<lambda>j (t, rowIndex, val, colCount). do {
             p1 \<leftarrow> elem colPointer j;
             p2 \<leftarrow> elem colPointer (j + 1);
             (t, rowIndex, val, pd) \<leftarrow> for_loop p1 p2
               (\<lambda>p (t, rowIndex, val, pd). do {
                  k \<leftarrow> elem rowIndex p;
                  pj \<leftarrow> elem t k;
                  if pj < p1 then do {
                    t \<leftarrow> upd t k pd;
                    rowIndex \<leftarrow> upd rowIndex pd k;
                    v \<leftarrow> elem val p;
                    val \<leftarrow> upd val pd v;
                    Some (t, rowIndex, val, pd + 1) }
                  else do {
                    a \<leftarrow> elem val pj;
                    b \<leftarrow> elem val p;
                    val \<leftarrow> upd val pj (a + b);
                    Some (t, rowIndex, val, pd) } })
               (t, rowIndex, val, p1);
             colCount \<leftarrow> upd colCount j (pd - p1);
             Some (t, rowIndex, val, colCount) })
          (t, rowIndex, val, Vector nR);
        \<comment> \<open>t.setZero ()\<close>
        let t = map (\<lambda>_. 0) t;
        \<comment> \<open>Count num. of entries per row.\<close>
        t \<leftarrow> for_loop 0 nR
          (\<lambda>j t. do {
             p0 \<leftarrow> elem colPointer j;
             c \<leftarrow> elem colCount j;
             for_loop p0 (p0 + c)
               (\<lambda>p t. do { k \<leftarrow> elem rowIndex p; n \<leftarrow> elem t k; upd t k (n + 1) })
               t })
          t;
        numEntries \<leftarrow> for_loop 0 (size_v t)
          (\<lambda>i numEntries. do { n \<leftarrow> elem t i; Some (numEntries + n) })
          0;
        let index = resize (cs_index this) numEntries;
        let values = resize (cs_value this) numEntries;
        \<comment> \<open>Set column pointers\<close>
        let indPointer = resize (cs_indPointer this) (nR + 1);
        indPointer \<leftarrow> upd indPointer 0 0;
        (indPointer, t) \<leftarrow> for_loop 0 nC
          (\<lambda>i (indPointer, t). do {
             a \<leftarrow> elem indPointer i;
             b \<leftarrow> elem t i;
             indPointer \<leftarrow> upd indPointer (i + 1) (a + b);
             a \<leftarrow> elem indPointer i;
             t \<leftarrow> upd t i a;
             Some (indPointer, t) })
          (indPointer, t);
        \<comment> \<open>Fill matrix\<close>
        (t, index, values) \<leftarrow> for_loop 0 nC
          (\<lambda>j s. do {
             p0 \<leftarrow> elem colPointer j;
             c \<leftarrow> elem colCount j;
             for_loop p0 (p0 + c)
               (\<lambda>p (t, index, values). do {
                  r \<leftarrow> elem rowIndex p;
                  k \<leftarrow> elem t r;
                  t \<leftarrow> upd t r (k + 1);
                  index \<leftarrow> upd index k j;
                  v \<leftarrow> elem val p;
                  values \<leftarrow> upd values k v;
                  Some (t, index, values) })
               s })
          (t, index, values);
        Some (this\<lparr>cs_index := index, cs_indPointer := indPointer, cs_value := values\<rparr>) })"

text \<open>\<open>CSRMatrix ( const TripletMatrix &tripletMatrix )\<close>\<close>

definition CSRMatrix :: "'a::{zero,plus} TripletMatrix \<Rightarrow> 'a CSMatrix option" where
  "CSRMatrix tripletMatrix =
     CSR_setFromTriplet (CSMatrix_init (numRows tripletMatrix) (numCols tripletMatrix)) tripletMatrix"

text \<open>\<open>CSRMatrix::get\<close>: the slice is row \<open>row\<close>, the key is \<open>col\<close>.\<close>

definition CSR_get :: "'a::zero CSMatrix \<Rightarrow> int \<Rightarrow> int \<Rightarrow> 'a option" where
  "CSR_get M row col = do {
     lo \<leftarrow> elem (cs_indPointer M) row;
     hi \<leftarrow> elem (cs_indPointer M) (row + 1);
     CSMatrix_find M col hi lo }"

section \<open>GenSparseMatrix\<close>

text \<open>
  The class \<open>Row\<close> (rows.h) is not among the sources. Its virtual methods \<open>get\<close>, \<open>set\<close> and
  \<open>scale\<close>, which \<open>GenSparseMatrix\<close> calls through the row pointers, are parameters of the
  model: \<open>'r\<close> is the state of a row object, and a method that changes the row returns its
  new state.
\<close>

record ('r, 'a) Row =
  Row_get :: "'r \<Rightarrow> int \<Rightarrow> int \<Rightarrow> 'a"
  Row_set :: "'r \<Rightarrow> int \<Rightarrow> int \<Rightarrow> 'a \<Rightarrow> 'r"
  Row_scale :: "'r \<Rightarrow> int \<Rightarrow> 'a \<Rightarrow> 'r"

text \<open>
  \<open>GenSparseMatrix\<close>: one row pointer per row, \<open>NULL\<close> (here \<open>None\<close>) for an implicit row,
  and the diagonal entry \<open>_diagEntry\<close> that all implicit rows share.
\<close>

record ('r, 'a) GenSparseMatrix = Matrix +
  rows :: "'r option list"
  diagEntry :: 'a

datatype exception = Exception string

text \<open>\<open>GenSparseMatrix::get\<close>, without \<open>BOUNDS_CHECK\<close>.\<close>

definition GenSparseMatrix_get ::
  "('r, 'a::zero) Row \<Rightarrow> ('r, 'a) GenSparseMatrix \<Rightarrow> int \<Rightarrow> int \<Rightarrow> 'a option" where
  "GenSparseMatrix_get ops M I J = do {
     row \<leftarrow> elem (rows M) I;
     case row of
       Some r \<Rightarrow> Some (Row_get ops r I J)
     | None \<Rightarrow> if I = J then Some (diagEntry M) else Some 0 }"

text \<open>
  \<open>GenSparseMatrix::set\<close>, without \<open>BOUNDS_CHECK\<close> and \<open>VERBOSE\<close>. The result is the matrix
  after the call together with the exception that the call has thrown, if any.
\<close>

definition GenSparseMatrix_set ::
  "('r, 'a::zero) Row \<Rightarrow> ('r, 'a) GenSparseMatrix \<Rightarrow> int \<Rightarrow> int \<Rightarrow> 'a \<Rightarrow>
     (('r, 'a) GenSparseMatrix \<times> exception option) option" where
  "GenSparseMatrix_set ops M I J Value = do {
     row \<leftarrow> elem (rows M) I;
     case row of
       Some r \<Rightarrow> do {
         rows' \<leftarrow> upd (rows M) I (Some (Row_set ops r I J Value));
         Some (M\<lparr>rows := rows'\<rparr>, None) }
     | None \<Rightarrow>
         if (I = J \<and> Value = diagEntry M) \<or> Value = 0 then Some (M, None)
         else Some (M, Some (Exception ''Row does not exist.'')) }"

text \<open>\<open>GenSparseMatrix::operator*=\<close>\<close>

definition GenSparseMatrix_operator_mult_assign ::
  "('r, 'a) Row \<Rightarrow> ('r, 'a) GenSparseMatrix \<Rightarrow> 'a \<Rightarrow> ('r, 'a) GenSparseMatrix option" where
  "GenSparseMatrix_operator_mult_assign ops M factor = do {
     rows' \<leftarrow> for_loop 0 (numRows M)
       (\<lambda>i rows. do {
          row \<leftarrow> elem rows i;
          case row of
            Some r \<Rightarrow> upd rows i (Some (Row_scale ops r i factor))
          | None \<Rightarrow> Some rows })
       (rows M);
     Some (M\<lparr>rows := rows'\<rparr>) }"

text \<open>\<open>GenSparseMatrix::scaleRow\<close>\<close>

definition GenSparseMatrix_scaleRow ::
  "('r, 'a) Row \<Rightarrow> ('r, 'a) GenSparseMatrix \<Rightarrow> int \<Rightarrow> 'a \<Rightarrow> ('r, 'a) GenSparseMatrix option" where
  "GenSparseMatrix_scaleRow ops M RowNum Factor = do {
     row \<leftarrow> elem (rows M) RowNum;
     case row of
       Some r \<Rightarrow> do {
         rows' \<leftarrow> upd (rows M) RowNum (Some (Row_scale ops r RowNum Factor));
         Some (M\<lparr>rows := rows'\<rparr>) }
     | None \<Rightarrow> Some M }"

section \<open>Auxiliary functions of the statements\<close>

text \<open>
  The value vector of \<open>setEntryToZero\<close> after the rounds \<open>0, \<dots>, k - 1\<close>: zero at the
  positions before \<open>k\<close> whose triple is at \<open>(row, col)\<close>, the old value elsewhere.
\<close>

definition zeroed :: "'a::zero TripletMatrix \<Rightarrow> int \<Rightarrow> int \<Rightarrow> int \<Rightarrow> 'a list" where
  "zeroed A row col k =
     map (\<lambda>m. if int m < k \<and> t_rowIndex A ! m = row \<and> t_colIndex A ! m = col then 0
              else t_value A ! m)
       [0..<length (t_value A)]"

text \<open>
  The values of the triples at \<open>(row, col)\<close> among the first \<open>k\<close> triples, in storage order:
  what \<open>TripletMatrix::get\<close> has added up after \<open>k\<close> rounds.
\<close>

definition contributions :: "'a TripletMatrix \<Rightarrow> int \<Rightarrow> int \<Rightarrow> nat \<Rightarrow> 'a list" where
  "contributions A row col k =
     map (\<lambda>m. t_value A ! m) (filter (\<lambda>m. t_rowIndex A ! m = row \<and> t_colIndex A ! m = col) [0..<k])"

text \<open>
  The row pointers of \<open>operator*=\<close> after the rounds \<open>0, \<dots>, k - 1\<close>: the rows before \<open>k\<close>
  that are present are scaled.
\<close>

definition scaled :: "('r, 'a) Row \<Rightarrow> 'a \<Rightarrow> 'r option list \<Rightarrow> int \<Rightarrow> 'r option list" where
  "scaled ops factor rs k =
     map (\<lambda>m. if int m < k then map_option (\<lambda>r. Row_scale ops r (int m) factor) (rs ! m) else rs ! m)
       [0..<length rs]"

text \<open>The class invariant of \<open>TripletMatrix\<close>: the three vectors have the same length.\<close>

definition equal_lengths :: "'a TripletMatrix \<Rightarrow> bool" where
  "equal_lengths A \<longleftrightarrow> length (t_colIndex A) = length (t_rowIndex A) \<and> length (t_value A) = length (t_rowIndex A)"

text \<open>
  The entry of the matrix at \<open>(row, col)\<close> when the values are \<open>vs\<close>: the sum of the values at
  the positions whose coordinates are \<open>(row, col)\<close>.
\<close>

definition entry_sum :: "'a TripletMatrix \<Rightarrow> 'a::comm_monoid_add list \<Rightarrow> int \<Rightarrow> int \<Rightarrow> 'a" where
  "entry_sum A vs row col =
     (\<Sum>k | k < length (t_rowIndex A) \<and> t_rowIndex A ! k = row \<and> t_colIndex A ! k = col. vs ! k)"

text \<open>The stored triples, in storage order.\<close>

definition triples :: "'a TripletMatrix \<Rightarrow> ((int \<times> int) \<times> 'a) list" where
  "triples A = zip (zip (t_rowIndex A) (t_colIndex A)) (t_value A)"

text \<open>
  The form of a compressed matrix with \<open>major\<close> slices: the pointer vector has \<open>major + 1\<close>
  elements, starts with 0, does not decrease and ends with the number of stored entries,
  and the indices inside each slice increase strictly.
\<close>

definition strictly_increasing_slice :: "int list \<Rightarrow> int \<Rightarrow> int \<Rightarrow> bool" where
  "strictly_increasing_slice idx lo hi = sorted_wrt (<) (take (nat (hi - lo)) (drop (nat lo) idx))"

definition compressed_form :: "int \<Rightarrow> 'a CSMatrix \<Rightarrow> bool" where
  "compressed_form major M =
     (let p = cs_indPointer M in
      size_v p = major + 1 \<and> elem p 0 = Some 0 \<and> sorted p \<and>
      elem p major = Some (size_v (cs_index M)) \<and>
      size_v (cs_value M) = size_v (cs_index M) \<and>
      list_all (\<lambda>m. strictly_increasing_slice (cs_index M) (p ! m) (p ! Suc m)) [0..<nat major])"

text \<open>
  The conversions agree with a TripletMatrix: they return a matrix in compressed form whose
  \<open>get\<close> reads at every position of the matrix what the \<open>get\<close> of the TripletMatrix reads.
\<close>

definition positions :: "int \<Rightarrow> int \<Rightarrow> (int \<times> int) list" where
  "positions nR nC = concat (map (\<lambda>i. map (\<lambda>j. (int i, int j)) [0..<nat nC]) [0..<nat nR])"

definition agrees_CSC :: "'a::{zero,plus} TripletMatrix \<Rightarrow> bool" where
  "agrees_CSC A =
     (case CSCMatrix A of
        None \<Rightarrow> False
      | Some M \<Rightarrow>
          compressed_form (numCols A) M \<and>
          list_all (\<lambda>(i, j). CSC_get M i j = TripletMatrix_get A i j)
            (positions (numRows A) (numCols A)))"

definition agrees_CSR :: "'a::{zero,plus} TripletMatrix \<Rightarrow> bool" where
  "agrees_CSR A =
     (case CSRMatrix A of
        None \<Rightarrow> False
      | Some M \<Rightarrow>
          compressed_form (numRows A) M \<and>
          list_all (\<lambda>(i, j). CSR_get M i j = TripletMatrix_get A i j)
            (positions (numRows A) (numCols A)))"

text \<open>
  All square matrices of dimension \<open>n\<close> with at most \<open>k\<close> stored triples whose values are 1
  or -1, in every order and with duplicates.
\<close>

fun entry_lists :: "nat \<Rightarrow> 'e list \<Rightarrow> 'e list list" where
  "entry_lists 0 es = [[]]"
| "entry_lists (Suc n) es = [] # concat (map (\<lambda>e. map ((#) e) (entry_lists n es)) es)"

definition square_matrices :: "int \<Rightarrow> nat \<Rightarrow> real TripletMatrix list" where
  "square_matrices n k =
     map (\<lambda>es. \<lparr>numRows = n, numCols = n, t_rowIndex = map (fst \<circ> fst) es,
                 t_colIndex = map (snd \<circ> fst) es, t_value = map snd es\<rparr>)
       (entry_lists k (concat (map (\<lambda>p. [(p, 1), (p, - 1)]) (positions n n))))"

text \<open>All orders of a list: the possible results of sorting elements with equal keys.\<close>

fun insert_everywhere :: "'a \<Rightarrow> 'a list \<Rightarrow> 'a list list" where
  "insert_everywhere x [] = [[x]]"
| "insert_everywhere x (y # ys) = (x # y # ys) # map ((#) y) (insert_everywhere x ys)"

fun orderings :: "'a list \<Rightarrow> 'a list list" where
  "orderings [] = [[]]"
| "orderings (x # xs) = concat (map (insert_everywhere x) (orderings xs))"

text \<open>
  Modelled from the spec: an explicit row as a list of column-value associations, for the
  concrete instances of the statements about \<open>GenSparseMatrix\<close> (the row classes of rows.h
  are not among the sources). \<open>get\<close> reads the first association of the column, \<open>set\<close>
  replaces the associations of the column by one, \<open>scale\<close> multiplies every value.
\<close>

definition association_row :: "((int \<times> real) list, real) Row" where
  "association_row =
     \<lparr>Row_get = (\<lambda>r I J. case map_of r J of None \<Rightarrow> 0 | Some v \<Rightarrow> v),
      Row_set = (\<lambda>r I J v. (J, v) # filter (\<lambda>e. fst e \<noteq> J) r),
      Row_scale = (\<lambda>r I f. map (\<lambda>e. (fst e, f * snd e)) r)\<rparr>"

section \<open>Loops\<close>

text \<open>
  The rule for a counting loop: an invariant that holds at the start and that every round
  of the body keeps, without failing, holds at the end, and the loop does not fail.
\<close>

lemma for_loop_invariant:
  assumes "i \<le> n" and "P i s"
    and "\<And>k s. i \<le> k \<Longrightarrow> k < n \<Longrightarrow> P k s \<Longrightarrow> \<exists>s'. body k s = Some s' \<and> P (k + 1) s'"
  shows "\<exists>s'. for_loop i n body s = Some s' \<and> P n s'"
  using assms
proof (induction i n body s rule: for_loop.induct)
  case (1 i n body s)
  show ?case
  proof (cases "i < n")
    case True
    with "1.prems" obtain s' where s': "body i s = Some s'" "P (i + 1) s'"
      by force
    have "\<exists>s''. for_loop (i + 1) n body s' = Some s'' \<and> P n s''"
      using True s' "1.prems"(3) by (intro "1.IH") auto
    with True s' show ?thesis
      by (subst for_loop.simps) simp
  next
    case False
    with "1.prems" show ?thesis
      by (subst for_loop.simps) simp
  qed
qed

text \<open>
  The rule for a loop that fails: when an invariant holds at the start, every round before
  round \<open>k\<close> keeps it unless it fails, and round \<open>k\<close> fails wherever the invariant holds,
  then the loop fails.
\<close>

lemma for_loop_fails:
  assumes "i \<le> k" and "k < n" and "P s"
    and "\<And>m s s'. m < k \<Longrightarrow> P s \<Longrightarrow> body m s = Some s' \<Longrightarrow> P s'"
    and "\<And>s. P s \<Longrightarrow> body k s = None"
  shows "for_loop i n body s = None"
  using assms(1,3)
proof (induction "nat (k - i)" arbitrary: i s rule: less_induct)
  case less
  show ?case
  proof (cases "body i s")
    case None
    with less.prems assms(2) show ?thesis
      by (subst for_loop.simps) simp
  next
    case (Some s')
    with assms(5) less.prems have "i \<noteq> k"
      by fastforce
    with less.prems have lt: "i < k"
      by simp
    have "P s'"
      by (rule assms(4) [OF lt less.prems(2) Some])
    moreover from lt have "nat (k - (i + 1)) < nat (k - i)" "i + 1 \<le> k"
      by simp_all
    ultimately have "for_loop (i + 1) n body s' = None"
      using less.hyps by blast
    with Some lt assms(2) show ?thesis
      by (subst for_loop.simps) simp
  qed
qed

section \<open>Reading and overwriting entries of a TripletMatrix\<close>

lemma length_zeroed [simp]: "length (zeroed A row col k) = length (t_value A)"
  by (simp add: zeroed_def)

lemma nth_zeroed:
  "m < length (t_value A) \<Longrightarrow>
     zeroed A row col k ! m =
       (if int m < k \<and> t_rowIndex A ! m = row \<and> t_colIndex A ! m = col then 0 else t_value A ! m)"
  by (simp add: zeroed_def)

lemma zeroed_step:
  assumes "0 \<le> k" "nat k < length (t_value A)"
  shows "zeroed A row col (k + 1) = (if t_rowIndex A ! nat k = row \<and> t_colIndex A ! nat k = col then (zeroed A row col k)[nat k := 0] else zeroed A row col k)"
proof (rule nth_equalityI)
  fix m assume "m < length (zeroed A row col (k + 1))"
  then have m: "m < length (t_value A)" by simp
  have "int m < k + 1 \<longleftrightarrow> int m < k \<or> m = nat k"
    using assms by linarith
  then show "zeroed A row col (k + 1) ! m = (if t_rowIndex A ! nat k = row \<and> t_colIndex A ! nat k = col then (zeroed A row col k)[nat k := 0] else zeroed A row col k) ! m"
    using m assms by (auto simp: nth_zeroed nth_list_update)
qed simp


lemma setEntryToZero_result:
  assumes "length (t_colIndex A) = length (t_rowIndex A)" and "length (t_value A) = length (t_rowIndex A)"
  shows "setEntryToZero A row col = Some (A\<lparr>t_value := zeroed A row col (size_v (t_rowIndex A))\<rparr>)"
proof -
  let ?n = "size_v (t_rowIndex A)"
  let ?body = "\<lambda>k vs. do {
          r \<leftarrow> elem (t_rowIndex A) k;
          if r = row then do {
            c \<leftarrow> elem (t_colIndex A) k;
            if c = col then upd vs k 0 else Some vs }
          else Some vs }"
  have "\<exists>vs. for_loop 0 ?n ?body (t_value A) = Some vs \<and> vs = zeroed A row col ?n"
  proof (rule for_loop_invariant [where P = "\<lambda>k vs. vs = zeroed A row col k"])
    show "0 \<le> ?n" by (simp add: size_v_def)
    show "t_value A = zeroed A row col 0"
      by (simp add: zeroed_def map_nth)
  next
    fix k :: int and vs :: "'a list"
    assume k: "0 \<le> k" "k < ?n" and vs: "vs = zeroed A row col k"
    from k assms have nk: "nat k < length (t_value A)"
      by (simp add: size_v_def)
    have "?body k vs = Some (zeroed A row col (k + 1))"
      unfolding zeroed_step [OF k(1) nk] vs
      using k assms by (simp add: elem_def upd_def size_v_def)
    then show "\<exists>s'. ?body k vs = Some s' \<and> s' = zeroed A row col (k + 1)"
      by simp
  qed
  then show ?thesis
    by (simp add: setEntryToZero_def)
qed


lemma contributions_Suc:
  "contributions A row col (Suc k) =
     contributions A row col k @
       (if t_rowIndex A ! k = row \<and> t_colIndex A ! k = col then [t_value A ! k] else [])"
  by (simp add: contributions_def)

lemma TripletMatrix_get_result:
  fixes A :: "'a::{zero,plus} TripletMatrix"
  assumes "length (t_colIndex A) = length (t_rowIndex A)" and "length (t_value A) = length (t_rowIndex A)"
  shows "TripletMatrix_get A row col = Some (foldl (+) 0 (contributions A row col (length (t_rowIndex A))))"
proof -
  let ?n = "size_v (t_rowIndex A)"
  let ?body = "\<lambda>i ret. do {
          r \<leftarrow> elem (t_rowIndex A) i;
          if r = row then do {
            c \<leftarrow> elem (t_colIndex A) i;
            if c = col then do { v \<leftarrow> elem (t_value A) i; Some (ret + v) } else Some ret }
          else Some ret }"
  let ?P = "\<lambda>k ret. ret = foldl (+) 0 (contributions A row col (nat k))"
  have "\<exists>ret. for_loop 0 ?n ?body 0 = Some ret \<and> ?P ?n ret"
  proof (rule for_loop_invariant [where P = ?P])
    show "0 \<le> ?n" by (simp add: size_v_def)
    show "?P 0 0" by (simp add: contributions_def)
  next
    fix k :: int and ret :: 'a
    assume k: "0 \<le> k" "k < ?n" and ret: "?P k ret"
    from k have suc: "nat (k + 1) = Suc (nat k)"
      by simp
    have "?body k ret = Some (foldl (+) 0 (contributions A row col (nat (k + 1))))"
      unfolding suc contributions_Suc
      using k assms ret by (simp add: elem_def size_v_def)
    then show "\<exists>s'. ?body k ret = Some s' \<and> ?P (k + 1) s'"
      by simp
  qed
  then show ?thesis
    by (simp add: TripletMatrix_get_def size_v_def)
qed

lemma foldl_plus_zeros: "foldl (+) (0::'a::monoid_add) (map (\<lambda>_. 0) xs) = 0"
  by (induction xs) simp_all

section \<open>Writes through TripletMatrix::set\<close>

text \<open>
  Claim C5. For every TripletMatrix whose three vectors have the same length, and for all
  \<open>i\<close>, \<open>j\<close> and \<open>v\<close>: \<open>set(i,j,v)\<close> returns, \<open>get(i,j)\<close> is \<open>v\<close> afterwards, the number of
  stored triples has grown by one, and every triple that was stored before is still stored
  at its position with its coordinates, with the value zero when its coordinates are
  \<open>(i,j)\<close> and with its old value otherwise. The values are those of any monoid under
  addition, which covers the check for in-bounds \<open>(i,j)\<close>.
\<close>

theorem TripletMatrix_set_replaces:
  fixes A :: "'a::monoid_add TripletMatrix"
  assumes "length (t_colIndex A) = length (t_rowIndex A)" and "length (t_value A) = length (t_rowIndex A)"
  shows "\<exists>A'. TripletMatrix_set A i j v = Some A' \<and>
           TripletMatrix_get A' i j = Some v \<and>
           length (t_rowIndex A') = length (t_rowIndex A) + 1 \<and>
           length (t_colIndex A') = length (t_colIndex A) + 1 \<and>
           length (t_value A') = length (t_value A) + 1 \<and>
           (\<forall>k < length (t_rowIndex A).
              t_rowIndex A' ! k = t_rowIndex A ! k \<and>
              t_colIndex A' ! k = t_colIndex A ! k \<and>
              t_value A' ! k =
                (if t_rowIndex A ! k = i \<and> t_colIndex A ! k = j then 0 else t_value A ! k))"
proof -
  let ?n = "length (t_rowIndex A)"
  let ?Z = "A\<lparr>t_value := zeroed A i j (size_v (t_rowIndex A))\<rparr>"
  let ?A' = "TripletMatrix_add ?Z i j v"
  have set: "TripletMatrix_set A i j v = Some ?A'"
    using setEntryToZero_result [OF assms] by (simp add: TripletMatrix_set_def)
  have rows: "t_rowIndex ?A' = t_rowIndex A @ [i]" and cols: "t_colIndex ?A' = t_colIndex A @ [j]"
    and vals: "t_value ?A' = zeroed A i j (int ?n) @ [v]"
    by (simp_all add: TripletMatrix_add_def pushBack_def size_v_def)
  have old: "t_value ?A' ! k = (if t_rowIndex A ! k = i \<and> t_colIndex A ! k = j then 0 else t_value A ! k)"
    if "k < ?n" for k
    using that assms by (simp add: vals nth_append nth_zeroed)
  have wf': "length (t_colIndex ?A') = length (t_rowIndex ?A')" "length (t_value ?A') = length (t_rowIndex ?A')"
    using assms by (simp_all add: rows cols vals)
  have f: "filter (\<lambda>m. t_rowIndex ?A' ! m = i \<and> t_colIndex ?A' ! m = j) [0..<?n] =
           filter (\<lambda>m. t_rowIndex A ! m = i \<and> t_colIndex A ! m = j) [0..<?n]"
    using assms by (intro filter_cong) (auto simp: rows cols nth_append)
  have c: "contributions ?A' i j ?n =
           map (\<lambda>_. 0) (filter (\<lambda>m. t_rowIndex A ! m = i \<and> t_colIndex A ! m = j) [0..<?n])"
    unfolding contributions_def f by (rule map_cong) (auto simp: old)
  have last: "t_rowIndex ?A' ! ?n = i" "t_colIndex ?A' ! ?n = j" "t_value ?A' ! ?n = v"
    using assms by (simp_all add: rows cols vals nth_append)
  have "TripletMatrix_get ?A' i j = Some (foldl (+) 0 (contributions ?A' i j (Suc ?n)))"
    using TripletMatrix_get_result [OF wf', of i j] by (simp add: rows)
  also have "foldl (+) 0 (contributions ?A' i j (Suc ?n)) = v"
    unfolding contributions_Suc c by (simp add: last foldl_plus_zeros)
  finally have get: "TripletMatrix_get ?A' i j = Some v" .
  have "\<forall>k < ?n. t_rowIndex ?A' ! k = t_rowIndex A ! k \<and> t_colIndex ?A' ! k = t_colIndex A ! k \<and>
          t_value ?A' ! k = (if t_rowIndex A ! k = i \<and> t_colIndex A ! k = j then 0 else t_value A ! k)"
    using assms old by (simp add: rows cols nth_append)
  moreover have "length (t_rowIndex ?A') = ?n + 1" "length (t_colIndex ?A') = length (t_colIndex A) + 1"
    "length (t_value ?A') = length (t_value A) + 1"
    by (simp_all add: rows cols vals)
  ultimately show ?thesis
    using set get by blast
qed

theorem TripletMatrix_set_replaces_witness:
  "TripletMatrix_set
     \<lparr>numRows = 2, numCols = 2, t_rowIndex = [0, 1, 0], t_colIndex = [0, 1, 0], t_value = [1, 2, 3 :: real]\<rparr>
     0 0 9
   = Some \<lparr>numRows = 2, numCols = 2, t_rowIndex = [0, 1, 0, 0], t_colIndex = [0, 1, 0, 0],
        t_value = [0, 2, 0, 9]\<rparr> \<and>
   TripletMatrix_get
     \<lparr>numRows = 2, numCols = 2, t_rowIndex = [0, 1, 0, 0], t_colIndex = [0, 1, 0, 0],
        t_value = [0, 2, 0, 9 :: real]\<rparr> 0 0
   = Some 9"
proof -
  let ?A = "\<lparr>numRows = 2, numCols = 2, t_rowIndex = [0, 1, 0], t_colIndex = [0, 1, 0],
              t_value = [1, 2, 3 :: real]\<rparr>"
  have h1: "length (t_colIndex ?A) = length (t_rowIndex ?A)"
    and h2: "length (t_value ?A) = length (t_rowIndex ?A)"
    by simp_all
  from TripletMatrix_set_replaces [OF h1 h2, of 0 0 9]
  obtain A' where A': "TripletMatrix_set ?A 0 0 9 = Some A'" "TripletMatrix_get A' 0 0 = Some 9"
    by (elim exE conjE) (rule that; assumption)
  have "TripletMatrix_set ?A 0 0 9
    = Some \<lparr>numRows = 2, numCols = 2, t_rowIndex = [0, 1, 0, 0], t_colIndex = [0, 1, 0, 0],
        t_value = [0, 2, 0, 9]\<rparr>"
    by code_simp
  with A' show ?thesis
    by simp
qed

section \<open>Implicit rows of a GenSparseMatrix\<close>

text \<open>
  Claim C7. For every GenSparseMatrix whose row \<open>I\<close> is absent (the row pointer at the
  in-range index \<open>I\<close> is \<open>NULL\<close>) and for every column \<open>J\<close> and value \<open>v\<close>: \<open>set(I,J,v)\<close>
  returns without an exception exactly when \<open>I = J\<close> and \<open>v\<close> is the shared diagonal value,
  or \<open>v\<close> is zero; otherwise it throws the exception "Row does not exist."; in both cases
  the matrix after the call is the matrix before it, so that every \<open>get\<close> reads what it
  read before.
\<close>

theorem GenSparseMatrix_set_absent_row:
  assumes "elem (rows M) I = Some None"
  shows "\<exists>M' e. GenSparseMatrix_set ops M I J v = Some (M', e) \<and>
           (e = None \<longleftrightarrow> (I = J \<and> v = diagEntry M) \<or> v = 0) \<and>
           (e \<noteq> None \<longrightarrow> e = Some (Exception ''Row does not exist.'')) \<and>
           M' = M \<and>
           (\<forall>i j. GenSparseMatrix_get ops M' i j = GenSparseMatrix_get ops M i j)"
  using assms by (simp add: GenSparseMatrix_set_def)

theorem GenSparseMatrix_set_absent_row_witness:
  "GenSparseMatrix_set association_row
     \<lparr>numRows = 2, numCols = 2, rows = [None, Some [(0, 2)]], diagEntry = 1\<rparr> 0 1 5
   = Some (\<lparr>numRows = 2, numCols = 2, rows = [None, Some [(0, 2)]], diagEntry = 1\<rparr>,
       Some (Exception ''Row does not exist.''))"
proof -
  let ?M = "\<lparr>numRows = 2, numCols = 2, rows = [None, Some [(0, 2 :: real)]], diagEntry = 1 :: real\<rparr>"
  have h: "elem (rows ?M) 0 = Some None"
    by (simp add: elem_def size_v_def)
  show ?thesis
    using GenSparseMatrix_set_absent_row [OF h, of association_row 1 5] by auto
qed

text \<open>
  The loop of \<open>operator*=\<close> over a vector with at least \<open>n\<close> row pointers returns the
  vector in which the rows before \<open>n\<close> that are present are scaled.
\<close>

lemma length_scaled [simp]: "length (scaled ops factor rs k) = length rs"
  by (simp add: scaled_def)

lemma nth_scaled:
  "m < length rs \<Longrightarrow> scaled ops factor rs k ! m =
     (if int m < k then map_option (\<lambda>r. Row_scale ops r (int m) factor) (rs ! m) else rs ! m)"
  by (simp add: scaled_def)

lemma scaled_0: "scaled ops factor rs 0 = rs"
  by (rule nth_equalityI) (simp_all add: nth_scaled)

lemma scaled_step:
  assumes "0 \<le> k" "nat k < length rs"
  shows "scaled ops factor rs (k + 1) =
           (case rs ! nat k of
              None \<Rightarrow> scaled ops factor rs k
            | Some r \<Rightarrow> (scaled ops factor rs k)[nat k := Some (Row_scale ops r k factor)])"
proof (rule nth_equalityI)
  fix m assume "m < length (scaled ops factor rs (k + 1))"
  then have m: "m < length rs" by simp
  have "int m < k + 1 \<longleftrightarrow> int m < k \<or> m = nat k"
    using assms by linarith
  then show "scaled ops factor rs (k + 1) ! m =
           (case rs ! nat k of
              None \<Rightarrow> scaled ops factor rs k
            | Some r \<Rightarrow> (scaled ops factor rs k)[nat k := Some (Row_scale ops r k factor)]) ! m"
    using m assms by (cases "rs ! nat k") (auto simp: nth_scaled nth_list_update)
qed (simp split: option.split)

lemma scale_rows_loop:
  assumes "0 \<le> n" and "n \<le> size_v rs"
  shows "for_loop 0 n
       (\<lambda>i rows. do {
          row \<leftarrow> elem rows i;
          case row of
            Some r \<Rightarrow> upd rows i (Some (Row_scale ops r i factor))
          | None \<Rightarrow> Some rows })
       rs = Some (scaled ops factor rs n)"
    (is "for_loop 0 n ?body rs = _")
proof -
  have "\<exists>s'. for_loop 0 n ?body rs = Some s' \<and> s' = scaled ops factor rs n"
  proof (rule for_loop_invariant [where P = "\<lambda>k s. s = scaled ops factor rs k"])
    show "0 \<le> n" by fact
    show "rs = scaled ops factor rs 0" by (simp add: scaled_0)
  next
    fix k :: int and s
    assume k: "0 \<le> k" "k < n" and s: "s = scaled ops factor rs k"
    from k assms have nk: "nat k < length rs"
      by (simp add: size_v_def)
    have "elem (scaled ops factor rs k) k = Some (rs ! nat k)"
      using k nk by (simp add: elem_def size_v_def nth_scaled)
    then have "?body k s = Some (scaled ops factor rs (k + 1))"
      unfolding scaled_step [OF k(1) nk] s using k nk
      by (cases "rs ! nat k") (simp_all add: upd_def size_v_def)
    then show "\<exists>s'. ?body k s = Some s' \<and> s' = scaled ops factor rs (k + 1)"
      by simp
  qed
  then show ?thesis by simp
qed

text \<open>
  Claim C8. For every GenSparseMatrix with one row pointer per row, every factor \<open>f\<close> and
  every row \<open>i\<close> whose pointer is \<open>NULL\<close>: \<open>operator*=(f)\<close> and \<open>scaleRow(i,f)\<close> return, \<open>get(i,j)\<close>
  reads afterwards what it read before for every column \<open>j\<close>, \<open>get(i,i)\<close> is still the shared
  diagonal value, and every row \<open>k\<close> that is present has been scaled by the \<open>scale\<close> method of
  its row object, by \<open>operator*=(f)\<close> as by \<open>scaleRow(k,f)\<close>.
\<close>

theorem GenSparseMatrix_scaling_skips_absent_rows:
  fixes M :: "('r, 'a::zero) GenSparseMatrix"
  assumes "size_v (rows M) = numRows M" and "elem (rows M) i = Some None"
  shows "\<exists>M1 M2.
           GenSparseMatrix_operator_mult_assign ops M f = Some M1 \<and>
           GenSparseMatrix_scaleRow ops M i f = Some M2 \<and>
           GenSparseMatrix_get ops M1 i j = GenSparseMatrix_get ops M i j \<and>
           GenSparseMatrix_get ops M2 i j = GenSparseMatrix_get ops M i j \<and>
           GenSparseMatrix_get ops M1 i i = Some (diagEntry M) \<and>
           GenSparseMatrix_get ops M2 i i = Some (diagEntry M) \<and>
           (\<forall>k r. elem (rows M) k = Some (Some r) \<longrightarrow>
              elem (rows M1) k = Some (Some (Row_scale ops r k f)) \<and>
              (\<exists>M3. GenSparseMatrix_scaleRow ops M k f = Some M3 \<and>
                    elem (rows M3) k = Some (Some (Row_scale ops r k f))))"
proof -
  let ?M1 = "M\<lparr>rows := scaled ops f (rows M) (numRows M)\<rparr>"
  have n: "0 \<le> numRows M" "numRows M \<le> size_v (rows M)"
    using assms(1) by (simp_all add: size_v_def)
  have m1: "GenSparseMatrix_operator_mult_assign ops M f = Some ?M1"
    by (simp add: GenSparseMatrix_operator_mult_assign_def scale_rows_loop [OF n])
  have m2: "GenSparseMatrix_scaleRow ops M i f = Some M"
    using assms(2) by (simp add: GenSparseMatrix_scaleRow_def)
  have elem1: "elem (scaled ops f (rows M) (numRows M)) k = map_option (map_option (\<lambda>r. Row_scale ops r k f)) (elem (rows M) k)" for k
    using assms(1) by (auto simp: elem_def size_v_def nth_scaled)
  have g1: "GenSparseMatrix_get ops ?M1 i j' = GenSparseMatrix_get ops M i j'" for j'
    using assms(2) by (simp add: GenSparseMatrix_get_def elem1)
  have d: "GenSparseMatrix_get ops M i i = Some (diagEntry M)"
    using assms(2) by (simp add: GenSparseMatrix_get_def)
  have present: "elem (scaled ops f (rows M) (numRows M)) k = Some (Some (Row_scale ops r k f)) \<and>
      (\<exists>M3. GenSparseMatrix_scaleRow ops M k f = Some M3 \<and> elem (rows M3) k = Some (Some (Row_scale ops r k f)))"
    if "elem (rows M) k = Some (Some r)" for k r
  proof -
    from that have k: "0 \<le> k" "k < size_v (rows M)"
      by (auto simp: elem_def split: if_splits)
    then have "GenSparseMatrix_scaleRow ops M k f = Some (M\<lparr>rows := (rows M)[nat k := Some (Row_scale ops r k f)]\<rparr>)"
      using that by (simp add: GenSparseMatrix_scaleRow_def upd_def)
    moreover have "elem ((rows M)[nat k := Some (Row_scale ops r k f)]) k = Some (Some (Row_scale ops r k f))"
      using k by (simp add: elem_def size_v_def)
    ultimately show ?thesis
      using that by (simp add: elem1)
  qed
  show ?thesis
    using m1 m2 g1 d present by (intro exI [of _ ?M1] exI [of _ M]) simp
qed

theorem GenSparseMatrix_scaling_skips_absent_rows_witness:
  "GenSparseMatrix_operator_mult_assign association_row
     \<lparr>numRows = 2, numCols = 2, rows = [None, Some [(0, 2), (1, 5)]], diagEntry = 1\<rparr> 3
   = Some \<lparr>numRows = 2, numCols = 2, rows = [None, Some [(0, 6), (1, 15)]], diagEntry = 1\<rparr> \<and>
   GenSparseMatrix_get association_row
     \<lparr>numRows = 2, numCols = 2, rows = [None, Some [(0, 6), (1, 15)]], diagEntry = 1\<rparr> 0 0
   = Some 1"
proof -
  let ?M = "\<lparr>numRows = 2, numCols = 2, rows = [None, Some [(0, 2), (1, 5 :: real)]],
              diagEntry = 1 :: real\<rparr>"
  have h1: "size_v (rows ?M) = numRows ?M"
    by (simp add: size_v_def)
  have h2: "elem (rows ?M) 0 = Some None"
    by (simp add: elem_def size_v_def)
  have run: "GenSparseMatrix_operator_mult_assign association_row ?M 3
    = Some \<lparr>numRows = 2, numCols = 2, rows = [None, Some [(0, 6), (1, 15)]], diagEntry = 1\<rparr>"
    by code_simp
  from GenSparseMatrix_scaling_skips_absent_rows [OF h1 h2, of association_row 3 0]
  have "GenSparseMatrix_get association_row
     \<lparr>numRows = 2, numCols = 2, rows = [None, Some [(0, 6), (1, 15)]], diagEntry = 1\<rparr> 0 0
   = Some 1"
    unfolding run by (elim exE conjE) simp
  with run show ?thesis
    by simp
qed

section \<open>Writes through the upper-triangular view\<close>

text \<open>
  Claim C9. For every view with offsets \<open>(rowOffset, colOffset)\<close> over a shared TripletMatrix
  \<open>M\<close> and every write \<open>add(r,c,v)\<close> in the coordinates of the block: when \<open>r > c\<close> the shared
  matrix is returned as it was, and no error is raised; when \<open>r \<le> c\<close> the shared matrix has
  exactly one more triple, \<open>(r + rowOffset, c + colOffset, v)\<close>, at the end of its three
  vectors.
\<close>

theorem TripletMatrixOffsetUpperTriangle_add_filters:
  "(c < r \<longrightarrow> TripletMatrixOffsetUpperTriangle_add V M r c v = M) \<and>
   (r \<le> c \<longrightarrow>
      TripletMatrixOffsetUpperTriangle_add V M r c v =
        M\<lparr>t_rowIndex := t_rowIndex M @ [r + rowOffset V],
          t_colIndex := t_colIndex M @ [c + colOffset V],
          t_value := t_value M @ [v]\<rparr>)"
  by (simp add: TripletMatrixOffsetUpperTriangle_add_def TripletMatrix_add_def pushBack_def)

theorem TripletMatrixOffsetUpperTriangle_add_filters_witness:
  "TripletMatrixOffsetUpperTriangle_add
     \<lparr>numRows = 2, numCols = 2, rowOffset = 3, colOffset = 5\<rparr>
     \<lparr>numRows = 8, numCols = 8, t_rowIndex = [0], t_colIndex = [0], t_value = [1 :: real]\<rparr> 1 0 7
   = \<lparr>numRows = 8, numCols = 8, t_rowIndex = [0], t_colIndex = [0], t_value = [1]\<rparr> \<and>
   TripletMatrixOffsetUpperTriangle_add
     \<lparr>numRows = 2, numCols = 2, rowOffset = 3, colOffset = 5\<rparr>
     \<lparr>numRows = 8, numCols = 8, t_rowIndex = [0], t_colIndex = [0], t_value = [1 :: real]\<rparr> 0 1 7
   = \<lparr>numRows = 8, numCols = 8, t_rowIndex = [0, 3], t_colIndex = [0, 6], t_value = [1, 7]\<rparr>"
proof -
  let ?V = "\<lparr>numRows = 2, numCols = 2, rowOffset = 3, colOffset = 5\<rparr>"
  let ?M = "\<lparr>numRows = 8, numCols = 8, t_rowIndex = [0], t_colIndex = [0], t_value = [1 :: real]\<rparr>"
  have lower: "(0 :: int) < 1" and upper: "(0 :: int) \<le> 1"
    by simp_all
  show ?thesis
    using TripletMatrixOffsetUpperTriangle_add_filters [of 0 1 ?V ?M 7]
      TripletMatrixOffsetUpperTriangle_add_filters [of 1 0 ?V ?M 7] lower upper
    by simp
qed

section \<open>sumDuplicates keeps the entries of a matrix that is not empty\<close>

lemma foldl_plus_sum_list: "foldl (+) (a :: 'a::comm_monoid_add) xs = a + sum_list xs"
  by (induction xs arbitrary: a) (simp_all add: add.assoc)

lemma contributions_sum:
  fixes A :: "'a::comm_monoid_add TripletMatrix"
  shows "foldl (+) 0 (contributions A row col (length (t_rowIndex A))) = entry_sum A (t_value A) row col"
proof -
  let ?P = "\<lambda>m. t_rowIndex A ! m = row \<and> t_colIndex A ! m = col"
  let ?n = "length (t_rowIndex A)"
  have "sum_list (map (\<lambda>m. t_value A ! m) (filter ?P [0..<?n])) = sum (\<lambda>m. t_value A ! m) (set (filter ?P [0..<?n]))"
    by (rule sum_list_distinct_conv_sum_set) simp
  moreover have "set (filter ?P [0..<?n]) = {k. k < ?n \<and> ?P k}"
    by auto
  ultimately show ?thesis
    by (simp add: foldl_plus_sum_list contributions_def entry_sum_def)
qed

lemma TripletMatrix_get_entry_sum:
  fixes A :: "'a::comm_monoid_add TripletMatrix"
  assumes "equal_lengths A"
  shows "TripletMatrix_get A row col = Some (entry_sum A (t_value A) row col)"
  using assms TripletMatrix_get_result [of A row col] contributions_sum [of A row col]
  by (simp add: equal_lengths_def)

lemma entry_sum_merge:
  fixes vs :: "'a::comm_monoid_add list"
  assumes "ii < length (t_rowIndex A)" "ij < length (t_rowIndex A)" "ii \<noteq> ij"
    and "t_rowIndex A ! ij = t_rowIndex A ! ii" "t_colIndex A ! ij = t_colIndex A ! ii"
    and "length vs = length (t_rowIndex A)"
  shows "entry_sum A (vs[ii := vs ! ii + vs ! ij, ij := 0]) row col = entry_sum A vs row col"
proof -
  let ?S = "{k. k < length (t_rowIndex A) \<and> t_rowIndex A ! k = row \<and> t_colIndex A ! k = col}"
  let ?vs' = "vs[ii := vs ! ii + vs ! ij, ij := 0]"
  have fin: "finite ?S" by simp
  show ?thesis
  proof (cases "ii \<in> ?S")
    case True
    with assms have ij: "ij \<in> ?S" by simp
    have ij': "ij \<in> ?S - {ii}" using ij assms(3) by simp
    have fin': "finite (?S - {ii})" by simp
    have rest: "sum ((!) ?vs') (?S - {ii} - {ij}) = sum ((!) vs) (?S - {ii} - {ij})"
      by (rule sum.cong) (use assms in \<open>auto simp: nth_list_update\<close>)
    have "sum ((!) ?vs') ?S = ?vs' ! ii + (?vs' ! ij + sum ((!) ?vs') (?S - {ii} - {ij}))"
      by (simp only: sum.remove [OF fin True] sum.remove [OF fin' ij'])
    also have "\<dots> = vs ! ii + (vs ! ij + sum ((!) vs) (?S - {ii} - {ij}))"
      using assms by (simp add: rest nth_list_update add.assoc)
    also have "\<dots> = sum ((!) vs) ?S"
      by (simp only: sum.remove [OF fin True] sum.remove [OF fin' ij'])
    finally show ?thesis
      by (simp add: entry_sum_def)
  next
    case False
    with assms have nij: "ij \<notin> ?S" by auto
    have "?vs' ! x = vs ! x" if "x \<in> ?S" for x
    proof -
      from that False nij have "x \<noteq> ii" "x \<noteq> ij" by blast+
      then show ?thesis by simp
    qed
    then have "sum ((!) ?vs') ?S = sum ((!) vs) ?S"
      by (intro sum.cong refl)
    then show ?thesis
      by (simp add: entry_sum_def)
  qed
qed


lemma sumDuplicates_inner_preserves:
  fixes vs :: "'a::comm_monoid_add list"
  assumes eq: "equal_lengths A"
    and valid: "\<forall>x \<in> set index. 0 \<le> x \<and> x < size_v (t_rowIndex A)" and dist: "distinct index"
    and i: "0 \<le> i"
  shows "length vs = length (t_rowIndex A) \<Longrightarrow> i < j \<Longrightarrow> j < size_v index \<Longrightarrow>
    \<exists>vs' j'. sumDuplicates_inner index A vs i j = Some (vs', j') \<and>
       length vs' = length (t_rowIndex A) \<and> j \<le> j' \<and> j' \<le> size_v index \<and>
       (\<forall>row col. entry_sum A vs' row col = entry_sum A vs row col)"
proof (induction "nat (size_v index - j)" arbitrary: j vs rule: less_induct)
  case less
  let ?n = "length (t_rowIndex A)"
  let ?ii = "index ! nat i" and ?ij = "index ! nat j"
  from less.prems i have bounds: "nat i < length index" "nat j < length index" "nat i \<noteq> nat j"
    by (simp_all add: size_v_def)
  then have mem: "?ii \<in> set index" "?ij \<in> set index"
    by simp_all
  with valid have rng: "0 \<le> ?ii" "?ii < int ?n" "0 \<le> ?ij" "?ij < int ?n"
    by (auto simp: size_v_def)
  from dist bounds have "?ii \<noteq> ?ij"
    by (simp add: nth_eq_iff_index_eq)
  with rng have ne: "nat ?ii \<noteq> nat ?ij"
    by (simp add: eq_nat_nat_iff)
  from rng have nrng: "nat ?ii < ?n" "nat ?ij < ?n"
    by linarith+
  have e1: "elem index j = Some ?ij" "elem index i = Some ?ii"
    using less.prems i by (simp_all add: elem_def size_v_def)
  have e2: "elem (t_rowIndex A) ?ij = Some (t_rowIndex A ! nat ?ij)"
    "elem (t_rowIndex A) ?ii = Some (t_rowIndex A ! nat ?ii)"
    "elem (t_colIndex A) ?ij = Some (t_colIndex A ! nat ?ij)"
    "elem (t_colIndex A) ?ii = Some (t_colIndex A ! nat ?ii)"
    "elem vs ?ii = Some (vs ! nat ?ii)" "elem vs ?ij = Some (vs ! nat ?ij)"
    using rng eq less.prems(1) by (simp_all add: elem_def size_v_def equal_lengths_def)
  show ?case
  proof (cases "t_rowIndex A ! nat ?ij = t_rowIndex A ! nat ?ii \<and> t_colIndex A ! nat ?ij = t_colIndex A ! nat ?ii")
    case False
    then have "sumDuplicates_inner index A vs i j = Some (vs, j)"
      by (subst sumDuplicates_inner.simps) (auto simp: e1 e2)
    with less.prems show ?thesis
      by simp
  next
    case True
    let ?vs2 = "vs[nat ?ii := vs ! nat ?ii + vs ! nat ?ij, nat ?ij := 0]"
    have u: "upd vs ?ii (vs ! nat ?ii + vs ! nat ?ij) = Some (vs[nat ?ii := vs ! nat ?ii + vs ! nat ?ij])"
      "upd (vs[nat ?ii := vs ! nat ?ii + vs ! nat ?ij]) ?ij 0 = Some ?vs2"
      using rng less.prems(1) by (simp_all add: upd_def size_v_def)
    have keep: "entry_sum A ?vs2 row col = entry_sum A vs row col" for row col
      using nrng ne True less.prems(1) by (intro entry_sum_merge) simp_all
    have len2: "length ?vs2 = ?n"
      using less.prems(1) by simp
    show ?thesis
    proof (cases "j + 1 \<ge> size_v index")
      case stop: True
      have "sumDuplicates_inner index A vs i j = Some (?vs2, j + 1)"
        using True stop by (subst sumDuplicates_inner.simps) (simp add: e1 e2 u)
      with less.prems keep len2 show ?thesis
        by simp
    next
      case go: False
      have step: "sumDuplicates_inner index A vs i j = sumDuplicates_inner index A ?vs2 i (j + 1)"
        using True go by (subst sumDuplicates_inner.simps) (simp add: e1 e2 u)
      from go less.prems have "nat (size_v index - (j + 1)) < nat (size_v index - j)"
        by simp
      from less.hyps [OF this len2] go less.prems obtain vs' j' where
        "sumDuplicates_inner index A ?vs2 i (j + 1) = Some (vs', j')" "length vs' = ?n"
        "j + 1 \<le> j'" "j' \<le> size_v index"
        "\<forall>row col. entry_sum A vs' row col = entry_sum A ?vs2 row col"
        by force
      with step keep show ?thesis
        by simp
    qed
  qed
qed


lemma size_t_minus_one_le: "1 \<le> n \<Longrightarrow> size_t_minus_one n \<le> n - 1"
  unfolding size_t_minus_one_def by (rule zmod_le_nonneg_dividend) simp

lemma sumDuplicates_outer_preserves:
  fixes vs :: "'a::comm_monoid_add list"
  assumes eq: "equal_lengths A"
    and valid: "\<forall>x \<in> set index. 0 \<le> x \<and> x < size_v (t_rowIndex A)" and dist: "distinct index"
    and nonempty: "index \<noteq> []"
  shows "length vs = length (t_rowIndex A) \<Longrightarrow> 0 \<le> i \<Longrightarrow>
    \<exists>vs'. sumDuplicates_outer index A vs i = Some vs' \<and>
       length vs' = length (t_rowIndex A) \<and>
       (\<forall>row col. entry_sum A vs' row col = entry_sum A vs row col)"
proof (induction "nat (size_v index - i)" arbitrary: i vs rule: less_induct)
  case less
  from nonempty have "1 \<le> size_v index"
    by (cases index) (simp_all add: size_v_def)
  then have bound: "size_t_minus_one (size_v index) \<le> size_v index - 1"
    by (rule size_t_minus_one_le)
  show ?case
  proof (cases "i < size_t_minus_one (size_v index)")
    case False
    then have "sumDuplicates_outer index A vs i = Some vs"
      by (subst sumDuplicates_outer.simps) simp
    with less.prems show ?thesis
      by simp
  next
    case True
    with bound have j: "i < i + 1" "i + 1 < size_v index"
      by simp_all
    from sumDuplicates_inner_preserves [OF eq valid dist less.prems(2) less.prems(1) j]
    obtain vs' j' where inner: "sumDuplicates_inner index A vs i (i + 1) = Some (vs', j')"
      and len': "length vs' = length (t_rowIndex A)" and j': "i + 1 \<le> j'" "j' \<le> size_v index"
      and keep: "\<forall>row col. entry_sum A vs' row col = entry_sum A vs row col"
      by blast
    have step: "sumDuplicates_outer index A vs i = sumDuplicates_outer index A vs' j'"
      using True inner by (subst sumDuplicates_outer.simps) simp
    from j j' have "nat (size_v index - j') < nat (size_v index - i)" and "0 \<le> j'"
      using less.prems(2) by simp_all
    from less.hyps [OF this(1) len' this(2)] obtain vs'' where
      "sumDuplicates_outer index A vs' j' = Some vs''" "length vs'' = length (t_rowIndex A)"
      "\<forall>row col. entry_sum A vs'' row col = entry_sum A vs' row col"
      by blast
    with step keep show ?thesis
      by simp
  qed
qed


lemma entry_sum_triples:
  fixes A :: "'a::comm_monoid_add TripletMatrix"
  assumes "equal_lengths A"
  shows "entry_sum A (t_value A) row col =
    sum_list (map snd (filter (\<lambda>e. fst (fst e) = row \<and> snd (fst e) = col) (triples A)))"
proof -
  let ?n = "length (t_rowIndex A)"
  let ?P = "\<lambda>m. t_rowIndex A ! m = row \<and> t_colIndex A ! m = col"
  have z: "triples A = map (\<lambda>m. ((t_rowIndex A ! m, t_colIndex A ! m), t_value A ! m)) [0..<?n]"
    using assms by (intro nth_equalityI) (simp_all add: triples_def equal_lengths_def)
  have "sum_list (map snd (filter (\<lambda>e. fst (fst e) = row \<and> snd (fst e) = col) (triples A)))
      = sum_list (map (\<lambda>m. t_value A ! m) (filter ?P [0..<?n]))"
    unfolding z by (simp add: filter_map comp_def)
  also have "\<dots> = sum (\<lambda>m. t_value A ! m) (set (filter ?P [0..<?n]))"
    by (rule sum_list_distinct_conv_sum_set) simp
  also have "set (filter ?P [0..<?n]) = {k. k < ?n \<and> ?P k}"
    by auto
  finally show ?thesis
    by (simp add: entry_sum_def)
qed

lemma entry_sum_erase:
  fixes A :: "'a::comm_monoid_add TripletMatrix"
  assumes eq: "equal_lengths A" and k: "k < length (t_rowIndex A)" and zero: "t_value A ! k = 0"
    and A': "A' = A\<lparr>t_rowIndex := take k (t_rowIndex A) @ drop (Suc k) (t_rowIndex A),
                    t_colIndex := take k (t_colIndex A) @ drop (Suc k) (t_colIndex A),
                    t_value := take k (t_value A) @ drop (Suc k) (t_value A)\<rparr>"
  shows "equal_lengths A'" and "entry_sum A' (t_value A') row col = entry_sum A (t_value A) row col"
proof -
  show eq': "equal_lengths A'"
    using eq by (simp add: A' equal_lengths_def)
  let ?Z = "triples A"
  have lenZ: "k < length ?Z"
    using eq k by (simp add: triples_def equal_lengths_def)
  have Z': "triples A' = take k ?Z @ drop (Suc k) ?Z"
    using eq k by (simp add: A' triples_def equal_lengths_def take_zip drop_zip)
  have Zk: "snd (?Z ! k) = 0"
    using eq k zero by (simp add: triples_def equal_lengths_def)
  have "?Z = take k ?Z @ ?Z ! k # drop (Suc k) ?Z"
    using lenZ by (rule id_take_nth_drop)
  then have "sum_list (map snd (filter (\<lambda>e. fst (fst e) = row \<and> snd (fst e) = col) ?Z))
      = sum_list (map snd (filter (\<lambda>e. fst (fst e) = row \<and> snd (fst e) = col) (take k ?Z @ ?Z ! k # drop (Suc k) ?Z)))"
    by simp
  also have "\<dots> = sum_list (map snd (filter (\<lambda>e. fst (fst e) = row \<and> snd (fst e) = col) (triples A')))"
    unfolding Z' using Zk by simp
  finally show "entry_sum A' (t_value A') row col = entry_sum A (t_value A) row col"
    by (simp add: entry_sum_triples [OF eq] entry_sum_triples [OF eq'])
qed

lemma removeZeroEntries_loop_preserves:
  fixes A :: "'a::comm_monoid_add TripletMatrix"
  shows "equal_lengths A \<Longrightarrow> 0 \<le> i \<Longrightarrow>
    \<exists>A'. removeZeroEntries_loop A i = Some A' \<and> equal_lengths A' \<and>
      (\<forall>row col. entry_sum A' (t_value A') row col = entry_sum A (t_value A) row col)"
proof (induction "nat (size_v (t_value A) - i)" arbitrary: A i rule: less_induct)
  case less
  show ?case
  proof (cases "i < size_v (t_value A)")
    case False
    then have "removeZeroEntries_loop A i = Some A"
      by (subst removeZeroEntries_loop.simps) simp
    with less.prems show ?thesis
      by simp
  next
    case True
    with less.prems have k: "nat i < length (t_rowIndex A)" "nat i < length (t_colIndex A)"
      "nat i < length (t_value A)"
      by (simp_all add: size_v_def equal_lengths_def)
    have v: "elem (t_value A) i = Some (t_value A ! nat i)"
      using True less.prems by (simp add: elem_def)
    show ?thesis
    proof (cases "t_value A ! nat i = 0")
      case nonzero: False
      have step: "removeZeroEntries_loop A i = removeZeroEntries_loop A (i + 1)"
        using True nonzero by (subst removeZeroEntries_loop.simps) (simp add: v)
      have "nat (size_v (t_value A) - (i + 1)) < nat (size_v (t_value A) - i)" "0 \<le> i + 1"
        using True less.prems by simp_all
      from less.hyps [OF this(1) less.prems(1) this(2)] step show ?thesis
        by simp
    next
      case zero: True
      let ?A' = "A\<lparr>t_rowIndex := take (nat i) (t_rowIndex A) @ drop (Suc (nat i)) (t_rowIndex A),
                    t_colIndex := take (nat i) (t_colIndex A) @ drop (Suc (nat i)) (t_colIndex A),
                    t_value := take (nat i) (t_value A) @ drop (Suc (nat i)) (t_value A)\<rparr>"
      have er: "erase (t_rowIndex A) i = Some (t_rowIndex ?A')"
        "erase (t_colIndex A) i = Some (t_colIndex ?A')"
        "erase (t_value A) i = Some (t_value ?A')"
        using k less.prems by (simp_all add: erase_def size_v_def)
      have step: "removeZeroEntries_loop A i = removeZeroEntries_loop ?A' (i + 1)"
        using True zero er by (subst removeZeroEntries_loop.simps) (simp add: v)
      note e = entry_sum_erase [OF less.prems(1) k(1) zero refl]
      have "nat (size_v (t_value ?A') - (i + 1)) < nat (size_v (t_value A) - i)" "0 \<le> i + 1"
        using True less.prems k by (simp_all add: size_v_def)
      from less.hyps [OF this(1) e(1) this(2)] obtain A'' where
        "removeZeroEntries_loop ?A' (i + 1) = Some A''" "equal_lengths A''"
        "\<forall>row col. entry_sum A'' (t_value A'') row col = entry_sum ?A' (t_value ?A') row col"
        by blast
      with step e(2) show ?thesis
        by simp
    qed
  qed
qed


lemma linear_insert_result:
  assumes "\<forall>y \<in> set ys. cmp x y \<noteq> None"
  shows "\<exists>zs. linear_insert cmp x ys = Some zs \<and> set zs = insert x (set ys) \<and>
           (x \<notin> set ys \<longrightarrow> distinct ys \<longrightarrow> distinct zs)"
  using assms
proof (induction ys)
  case Nil
  then show ?case by simp
next
  case (Cons y ys)
  then obtain b where b: "cmp x y = Some b"
    by auto
  from Cons obtain zs where zs: "linear_insert cmp x ys = Some zs" "set zs = insert x (set ys)"
    "x \<notin> set ys \<longrightarrow> distinct ys \<longrightarrow> distinct zs"
    by auto
  show ?case
    using b zs by (cases b) auto
qed

lemma insertion_sort_result:
  assumes "\<forall>x \<in> set front \<union> set xs. \<forall>y \<in> set front \<union> set xs. cmp x y \<noteq> None"
    and "distinct (front @ xs)"
  shows "\<exists>zs. insertion_sort cmp front xs = Some zs \<and> set zs = set front \<union> set xs \<and> distinct zs"
  using assms
proof (induction xs arbitrary: front)
  case Nil
  then show ?case by simp
next
  case (Cons x xs)
  from Cons.prems have "\<forall>y \<in> set front. cmp x y \<noteq> None"
    by simp
  from linear_insert_result [of front cmp x, OF this] Cons.prems(2) obtain front' where
    f: "linear_insert cmp x front = Some front'" "set front' = insert x (set front)" "distinct front'"
    by auto
  have "\<exists>zs. insertion_sort cmp front' xs = Some zs \<and> set zs = set front' \<union> set xs \<and> distinct zs"
    using Cons.prems f by (intro Cons.IH) auto
  with f show ?case
    by auto
qed

lemma RowColIndexSorter_defined:
  assumes "equal_lengths A" "0 \<le> i" "i < size_v (t_rowIndex A)" "0 \<le> j" "j < size_v (t_rowIndex A)"
  shows "RowColIndexSorter A i j \<noteq> None"
  using assms by (auto simp: RowColIndexSorter_def elem_def size_v_def equal_lengths_def)

lemma std_sort_identity_index:
  assumes "equal_lengths A"
  shows "\<exists>index. std_sort (RowColIndexSorter A) (identity_index (size_v (t_rowIndex A))) = Some index \<and>
           set index = set (identity_index (size_v (t_rowIndex A))) \<and> distinct index"
proof -
  let ?xs = "identity_index (size_v (t_rowIndex A))"
  have rng: "0 \<le> x \<and> x < size_v (t_rowIndex A)" if "x \<in> set ?xs" for x
    using that by (auto simp: identity_index_def size_v_def)
  have "distinct ?xs"
    by (simp add: identity_index_def distinct_map)
  moreover have "\<forall>x \<in> set [] \<union> set ?xs. \<forall>y \<in> set [] \<union> set ?xs. RowColIndexSorter A x y \<noteq> None"
    using rng assms by (simp add: RowColIndexSorter_defined)
  ultimately show ?thesis
    using insertion_sort_result [of "[]" ?xs "RowColIndexSorter A"] by (simp add: std_sort_def)
qed

text \<open>
  For every TripletMatrix with at least one stored triple, with values in a commutative
  monoid and with the index vector in any order (a permutation of the positions),
  \<open>sumDuplicates\<close> returns, and \<open>get\<close> reads at every position what it read before the call.
\<close>

lemma sumDuplicates_sorted_preserves_get:
  fixes A :: "'a::comm_monoid_add TripletMatrix"
  assumes eq: "equal_lengths A" and nonempty: "t_rowIndex A \<noteq> []"
    and index: "set index = set (identity_index (size_v (t_rowIndex A)))" "distinct index"
  shows "\<exists>A'. sumDuplicates_sorted index A = Some A' \<and>
           (\<forall>row col. TripletMatrix_get A' row col = TripletMatrix_get A row col)"
proof -
  have valid: "\<forall>x \<in> set index. 0 \<le> x \<and> x < size_v (t_rowIndex A)"
    using index(1) by (auto simp: identity_index_def size_v_def)
  from nonempty have "(0 :: int) \<in> set (identity_index (size_v (t_rowIndex A)))"
    by (cases "t_rowIndex A") (auto simp: identity_index_def size_v_def)
  with index(1) have ne: "index \<noteq> []"
    by auto
  have len: "length (t_value A) = length (t_rowIndex A)"
    using eq by (simp add: equal_lengths_def)
  from sumDuplicates_outer_preserves [OF eq valid index(2) ne len, of 0] obtain vs where
    vs: "sumDuplicates_outer index A (t_value A) 0 = Some vs" "length vs = length (t_rowIndex A)"
    "\<forall>row col. entry_sum A vs row col = entry_sum A (t_value A) row col"
    by auto
  let ?B = "A\<lparr>t_value := vs\<rparr>"
  have eqB: "equal_lengths ?B"
    using eq vs(2) by (simp add: equal_lengths_def)
  have sumB: "entry_sum ?B (t_value ?B) row col = entry_sum A (t_value A) row col" for row col
    using vs(3) by (simp add: entry_sum_def)
  from removeZeroEntries_loop_preserves [OF eqB, of 0] obtain A' where
    A': "removeZeroEntries_loop ?B 0 = Some A'" "equal_lengths A'"
    "\<forall>row col. entry_sum A' (t_value A') row col = entry_sum ?B (t_value ?B) row col"
    by auto
  have "sumDuplicates_sorted index A = Some A'"
    using vs(1) A'(1) by (simp add: sumDuplicates_sorted_def removeZeroEntries_def)
  moreover have "TripletMatrix_get A' row col = TripletMatrix_get A row col" for row col
    using A'(3) sumB by (simp add: TripletMatrix_get_entry_sum [OF eq] TripletMatrix_get_entry_sum [OF A'(2)])
  ultimately show ?thesis
    by simp
qed

text \<open>The same for the order that the modelled \<open>std::sort\<close> produces.\<close>

lemma sumDuplicates_preserves_get:
  fixes A :: "'a::comm_monoid_add TripletMatrix"
  assumes eq: "equal_lengths A" and nonempty: "t_rowIndex A \<noteq> []"
  shows "\<exists>A'. sumDuplicates A = Some A' \<and>
           (\<forall>row col. TripletMatrix_get A' row col = TripletMatrix_get A row col)"
proof -
  from std_sort_identity_index [OF eq] obtain index where
    index: "std_sort (RowColIndexSorter A) (identity_index (size_v (t_rowIndex A))) = Some index"
    "set index = set (identity_index (size_v (t_rowIndex A)))" "distinct index"
    by auto
  from sumDuplicates_sorted_preserves_get [OF eq nonempty index(2,3)] index(1) show ?thesis
    by (simp add: sumDuplicates_def)
qed

section \<open>Removal loops that step over the element after an erased one\<close>

text \<open>
  \<open>removeZeroEntries\<close> and \<open>removeRowCol\<close> increment their counter after an \<open>erase\<close>, so the
  element that has moved into the erased position is never looked at. \<open>eraseValue\<close> does
  not: on the values \<open>[0, 0, 4]\<close> of the triples \<open>(0,0)\<close>, \<open>(0,0)\<close>, \<open>(1,1)\<close> the sibling loop
  removes both triples at \<open>(0,0)\<close> and \<open>removeZeroEntries\<close> only the first.
\<close>

lemma eraseValue_removes_neighbours:
  "eraseValue
     \<lparr>numRows = 2, numCols = 2, t_rowIndex = [0, 0, 1], t_colIndex = [0, 0, 1],
        t_value = [0, 0, 4 :: real]\<rparr> 0 0
   = Some \<lparr>numRows = 2, numCols = 2, t_rowIndex = [1], t_colIndex = [1], t_value = [4]\<rparr> \<and>
   removeZeroEntries
     \<lparr>numRows = 2, numCols = 2, t_rowIndex = [0, 0, 1], t_colIndex = [0, 0, 1],
        t_value = [0, 0, 4 :: real]\<rparr>
   = Some \<lparr>numRows = 2, numCols = 2, t_rowIndex = [0, 1], t_colIndex = [0, 1], t_value = [0, 4]\<rparr>"
  by code_simp

text \<open>
  Claim C3, at a matrix with four triples at \<open>(0,0)\<close>: \<open>sumDuplicates\<close> returns and \<open>get(0,0)\<close>
  is 10 before and after the call, but two triples at \<open>(0,0)\<close> are stored after the call,
  the sum and one zero that \<open>removeZeroEntries\<close> has stepped over, where the claim allows
  at most one.
\<close>

theorem sumDuplicates_leaves_two_triples:
  "sumDuplicates
     \<lparr>numRows = 2, numCols = 2, t_rowIndex = [0, 0, 0, 0], t_colIndex = [0, 0, 0, 0],
        t_value = [1, 2, 3, 4 :: real]\<rparr>
   = Some \<lparr>numRows = 2, numCols = 2, t_rowIndex = [0, 0], t_colIndex = [0, 0], t_value = [10, 0]\<rparr> \<and>
   TripletMatrix_get
     \<lparr>numRows = 2, numCols = 2, t_rowIndex = [0, 0, 0, 0], t_colIndex = [0, 0, 0, 0],
        t_value = [1, 2, 3, 4 :: real]\<rparr> 0 0
   = Some 10 \<and>
   TripletMatrix_get
     \<lparr>numRows = 2, numCols = 2, t_rowIndex = [0, 0], t_colIndex = [0, 0], t_value = [10, 0 :: real]\<rparr> 0 0
   = Some 10"
  by code_simp

text \<open>
  The same holds in whatever order \<open>std::sort\<close> leaves the four triples, whose keys are
  equal: two triples at \<open>(0,0)\<close> remain for each of the 24 orders of the index vector.
\<close>

lemma two_triples_remain_in_any_order:
  "list_all
     (\<lambda>index.
        map_option (\<lambda>A'. (t_rowIndex A', t_colIndex A'))
          (sumDuplicates_sorted index
             \<lparr>numRows = 2, numCols = 2, t_rowIndex = [0, 0, 0, 0], t_colIndex = [0, 0, 0, 0],
                t_value = [1, 2, 3, 4 :: real]\<rparr>)
        = Some ([0, 0], [0, 0]))
     (orderings [0, 1, 2, 3])"
  by code_simp

text \<open>
  Claim C4, the scenario \<open>add(0,0,3.0)\<close>, \<open>add(0,0,-3.0)\<close>, \<open>add(1,1,4.0)\<close> on an empty matrix:
  after \<open>sumDuplicates\<close> two triples are stored, \<open>(0,0)\<close> with the value zero and \<open>(1,1)\<close> with
  the value 4, where the claim has the triple \<open>(1,1)\<close> alone.
\<close>

theorem sumDuplicates_scenario_keeps_zero_triple:
  "sumDuplicates
     (TripletMatrix_add (TripletMatrix_add (TripletMatrix_add
        \<lparr>numRows = 2, numCols = 2, t_rowIndex = [], t_colIndex = [], t_value = []\<rparr>
        0 0 3) 0 0 (- 3)) 1 1 (4 :: real))
   = Some \<lparr>numRows = 2, numCols = 2, t_rowIndex = [0, 1], t_colIndex = [0, 1], t_value = [0, 4]\<rparr>"
  by code_simp

text \<open>
  The two triples at \<open>(0,0)\<close> have equal keys; the result is the same for both orders in
  which \<open>std::sort\<close> may leave them.
\<close>

lemma sumDuplicates_scenario_in_any_order:
  "list_all
     (\<lambda>index.
        sumDuplicates_sorted index
          \<lparr>numRows = 2, numCols = 2, t_rowIndex = [0, 0, 1], t_colIndex = [0, 0, 1],
             t_value = [3, - 3, 4 :: real]\<rparr>
        = Some \<lparr>numRows = 2, numCols = 2, t_rowIndex = [0, 1], t_colIndex = [0, 1],
             t_value = [0, 4]\<rparr>)
     [[0, 1, 2], [1, 0, 2]]"
  by code_simp

text \<open>
  Claim C6, at the matrix with the triples \<open>(0,0,1)\<close> and \<open>(0,1,2)\<close> and \<open>i = 0\<close>: after
  \<open>removeRowCol(0)\<close> the triple \<open>(0,1,2)\<close>, which is in row 0, is still stored, with its
  indices as they were: the loop has erased \<open>(0,0,1)\<close> and stepped over its successor.
\<close>

theorem removeRowCol_keeps_triple_of_removed_row:
  "removeRowCol
     \<lparr>numRows = 2, numCols = 2, t_rowIndex = [0, 0], t_colIndex = [0, 1], t_value = [1, 2 :: real]\<rparr> 0
   = Some \<lparr>numRows = 2, numCols = 2, t_rowIndex = [0], t_colIndex = [1], t_value = [2]\<rparr>"
  by code_simp

text \<open>
  A triple after an erased one is not renumbered either: \<open>(1,1,2)\<close> keeps its indices when
  row and column 0 are removed, and is renumbered when it is not behind an erased triple.
\<close>

lemma removeRowCol_renumbers_unless_stepped_over:
  "removeRowCol
     \<lparr>numRows = 2, numCols = 2, t_rowIndex = [0, 1], t_colIndex = [0, 1], t_value = [1, 2 :: real]\<rparr> 0
   = Some \<lparr>numRows = 2, numCols = 2, t_rowIndex = [1], t_colIndex = [1], t_value = [2]\<rparr> \<and>
   removeRowCol
     \<lparr>numRows = 2, numCols = 2, t_rowIndex = [1, 0], t_colIndex = [1, 0], t_value = [2, 1 :: real]\<rparr> 0
   = Some \<lparr>numRows = 2, numCols = 2, t_rowIndex = [0], t_colIndex = [0], t_value = [2]\<rparr>"
  by code_simp

section \<open>sumDuplicates on a matrix without entries\<close>

text \<open>
  Claim C10, at the matrix without entries: the bound \<open>index.size () - 1\<close> of the outer loop
  is \<open>2 ^ 64 - 1\<close>, the loop is entered with \<open>i = 0\<close> and \<open>j = 1\<close>, and the first test of the
  inner loop reads \<open>index[1]\<close> in the empty index vector: \<open>sumDuplicates\<close> fails on an
  out-of-range read, where the claim has no such read.
\<close>

theorem sumDuplicates_empty_reads_out_of_range:
  "sumDuplicates
     \<lparr>numRows = 2, numCols = 2, t_rowIndex = [], t_colIndex = [], t_value = [] :: real list\<rparr>
   = None \<and>
   size_t_minus_one (size_v ([] :: int list)) = 18446744073709551615 \<and>
   elem ([] :: int list) 1 = None"
  by code_simp

section \<open>Conversion of matrices that are not square\<close>

text \<open>
  On a square matrix the conversion does what the specification describes: the entries
  \<open>(0,0,1)\<close>, \<open>(2,0,2)\<close>, \<open>(0,0,3)\<close> of a matrix with three rows and three columns give a
  column 0 with the two entries 4 in row 0 and 2 in row 2.
\<close>

lemma setFromTriplet_square_scenario:
  "CSCMatrix
     \<lparr>numRows = 3, numCols = 3, t_rowIndex = [0, 2, 0], t_colIndex = [0, 0, 0],
        t_value = [1, 2, 3 :: real]\<rparr>
   = Some \<lparr>numRows = 3, numCols = 3, cs_index = [0, 2], cs_indPointer = [0, 2, 2, 2],
        cs_value = [4, 2]\<rparr> \<and>
   CSRMatrix
     \<lparr>numRows = 3, numCols = 3, t_rowIndex = [0, 2, 0], t_colIndex = [0, 0, 0],
        t_value = [1, 2, 3 :: real]\<rparr>
   = Some \<lparr>numRows = 3, numCols = 3, cs_index = [0, 0], cs_indPointer = [0, 1, 1, 2],
        cs_value = [4, 2]\<rparr>"
  by code_simp

text \<open>
  More widely, for each of the 73 square matrices of dimension 2 with at most two stored
  triples of value 1 or -1, both conversions return a matrix in compressed form that agrees
  with the TripletMatrix at every position.
\<close>

lemma setFromTriplet_small_square_matrices:
  "list_all agrees_CSC (square_matrices 2 2) \<and> list_all agrees_CSR (square_matrices 2 2)"
  by code_simp

text \<open>
  The loop that sets the pointers of the first pass writes \<open>pointer[j + 1]\<close> for every
  \<open>j\<close> below its bound \<open>n\<close>: on a pointer vector of \<open>m + 1\<close> elements with \<open>m < n\<close> it writes out
  of range in round \<open>m\<close>. This is the loop of \<open>CSCMatrix::setFromTriplet\<close> on a matrix with
  more columns than rows and of \<open>CSRMatrix::setFromTriplet\<close> on a matrix with more rows than
  columns.
\<close>

lemma pointer_loop_fails:
  assumes "0 \<le> m" and "m < n" and "length p = nat (m + 1)"
  shows "for_loop 0 n
          (\<lambda>j (rowPointer, t). do {
             a \<leftarrow> elem rowPointer j;
             b \<leftarrow> elem t j;
             rowPointer \<leftarrow> upd rowPointer (j + 1) (a + b);
             a \<leftarrow> elem rowPointer j;
             t \<leftarrow> upd (t :: int list) j a;
             Some (rowPointer, t) })
          (p :: int list, t0) = None"
proof (rule for_loop_fails [where k = m and P = "\<lambda>s. length (fst s) = nat (m + 1)"])
  show "0 \<le> m" "m < n" by fact+
  show "length (fst (p, t0)) = nat (m + 1)" using assms by simp
next
  fix j :: int and s s' :: "int list \<times> int list"
  assume "length (fst s) = nat (m + 1)"
    and "(case s of (rowPointer, t) \<Rightarrow> do {
             a \<leftarrow> elem rowPointer j;
             b \<leftarrow> elem t j;
             rowPointer \<leftarrow> upd rowPointer (j + 1) (a + b);
             a \<leftarrow> elem rowPointer j;
             t \<leftarrow> upd t j a;
             Some (rowPointer, t) }) = Some s'"
  then show "length (fst s') = nat (m + 1)"
    by (cases s) (auto simp: upd_def split: Option.bind_splits if_splits)
next
  fix s :: "int list \<times> int list"
  assume "length (fst s) = nat (m + 1)"
  with assms(1) show "(case s of (rowPointer, t) \<Rightarrow> do {
             a \<leftarrow> elem rowPointer m;
             b \<leftarrow> elem t m;
             rowPointer \<leftarrow> upd rowPointer (m + 1) (a + b);
             a \<leftarrow> elem rowPointer m;
             t \<leftarrow> upd t m a;
             Some (rowPointer, t) }) = None"
    by (cases s) (auto simp: upd_def size_v_def split: Option.bind_splits)
qed

text \<open>
  \<open>CSCMatrix::setFromTriplet\<close> writes out of range for every matrix with more columns than
  rows, whatever its entries.
\<close>

lemma CSCMatrix_wide_fails:
  assumes "0 \<le> numRows A" and "numRows A < numCols A"
  shows "CSCMatrix A = None"
  unfolding CSCMatrix_def CSC_setFromTriplet_def Let_def
  by (simp add: CSMatrix_init_def pointer_loop_fails [OF assms] Vector_def split: Option.bind_split)

text \<open>
  \<open>CSRMatrix::setFromTriplet\<close> writes out of range for every matrix with more rows than
  columns.
\<close>

lemma CSRMatrix_tall_fails:
  assumes "0 \<le> numCols A" and "numCols A < numRows A"
  shows "CSRMatrix A = None"
  unfolding CSRMatrix_def CSR_setFromTriplet_def Let_def
  by (simp add: CSMatrix_init_def pointer_loop_fails [OF assms] Vector_def split: Option.bind_split)


text \<open>
  The loop of \<open>CSRMatrix::setFromTriplet\<close> that sums up duplicates runs over the columns and
  writes \<open>colCount[j]\<close> in a vector that has one element per row: with more columns than
  rows it writes out of range in round \<open>numRows\<close>.
\<close>

lemma count_loop_fails:
  fixes val0 :: "'a::{zero,plus} list" and cc :: "int list"
  assumes "0 \<le> m" and "m < n" and "length cc = nat m"
  shows "for_loop 0 n
          (\<lambda>j (t, rowIndex, val, colCount). do {
             p1 \<leftarrow> elem colPointer j;
             p2 \<leftarrow> elem colPointer (j + 1);
             (t, rowIndex, val, pd) \<leftarrow> for_loop p1 p2
               (\<lambda>p (t, rowIndex, val, pd). do {
                  k \<leftarrow> elem rowIndex p;
                  pj \<leftarrow> elem t k;
                  if pj < p1 then do {
                    t \<leftarrow> upd t k pd;
                    rowIndex \<leftarrow> upd rowIndex pd k;
                    v \<leftarrow> elem val p;
                    val \<leftarrow> upd val pd v;
                    Some (t, rowIndex, val, pd + 1) }
                  else do {
                    a \<leftarrow> elem val pj;
                    b \<leftarrow> elem val p;
                    val \<leftarrow> upd val pj (a + b);
                    Some (t, rowIndex, val, pd) } })
               (t, rowIndex, val, p1);
             colCount \<leftarrow> upd colCount j (pd - p1);
             Some (t, rowIndex, val, colCount) })
          (t0 :: int list, ri0 :: int list, val0, cc) = None"
    (is "for_loop 0 n ?body _ = None")
proof (rule for_loop_fails [where k = m and P = "\<lambda>s. length (snd (snd (snd s))) = nat m"])
  show "0 \<le> m" "m < n" by fact+
  show "length (snd (snd (snd (t0, ri0, val0, cc)))) = nat m" using assms by simp
next
  fix j :: int and s s' :: "int list \<times> int list \<times> 'a list \<times> int list"
  assume "length (snd (snd (snd s))) = nat m" and "?body j s = Some s'"
  then show "length (snd (snd (snd s'))) = nat m"
    by (cases s) (auto simp: upd_def split: Option.bind_splits if_splits)
next
  fix s :: "int list \<times> int list \<times> 'a list \<times> int list"
  assume "length (snd (snd (snd s))) = nat m"
  with assms(1) show "?body m s = None"
    by (cases s) (auto simp: upd_def size_v_def split: Option.bind_splits)
qed

text \<open>
  \<open>CSRMatrix::setFromTriplet\<close> writes out of range for every matrix with more columns than
  rows as well, and so for every matrix that is not square.
\<close>

lemma CSRMatrix_wide_fails:
  fixes A :: "'a::{zero,plus} TripletMatrix"
  assumes "0 \<le> numRows A" and "numRows A < numCols A"
  shows "CSRMatrix A = None"
  unfolding CSRMatrix_def CSR_setFromTriplet_def Let_def
  by (simp add: CSMatrix_init_def count_loop_fails [OF assms] Vector_def
      split: Option.bind_split prod.split)

text \<open>
  Claim C1, at the matrix with two rows and one column and the in-bounds entries \<open>(0,0,1)\<close>
  and \<open>(1,0,2)\<close>: the loop that sets the row pointers of \<open>CSCMatrix::setFromTriplet\<close> runs
  over the columns, row 1 gets no bucket, and the compressed matrix has lost the entry
  \<open>(1,0)\<close>: its \<open>get(1,0)\<close> is 0 where the TripletMatrix has 2. \<open>CSRMatrix::setFromTriplet\<close>
  runs its loop for the column pointers over the rows and writes \<open>colPointer[2]\<close> in a
  vector of two elements.
\<close>

theorem setFromTriplet_tall_matrix_loses_entry:
  "CSCMatrix
     \<lparr>numRows = 2, numCols = 1, t_rowIndex = [0, 1], t_colIndex = [0, 0], t_value = [1, 2 :: real]\<rparr>
   = Some \<lparr>numRows = 2, numCols = 1, cs_index = [0], cs_indPointer = [0, 1], cs_value = [1]\<rparr> \<and>
   CSC_get
     \<lparr>numRows = 2, numCols = 1, cs_index = [0], cs_indPointer = [0, 1], cs_value = [1 :: real]\<rparr> 1 0
   = Some 0 \<and>
   TripletMatrix_get
     \<lparr>numRows = 2, numCols = 1, t_rowIndex = [0, 1], t_colIndex = [0, 0], t_value = [1, 2 :: real]\<rparr> 1 0
   = Some 2 \<and>
   CSRMatrix
     \<lparr>numRows = 2, numCols = 1, t_rowIndex = [0, 1], t_colIndex = [0, 0], t_value = [1, 2 :: real]\<rparr>
   = None"
  by code_simp

text \<open>
  Claim C2, at the matrix with one row and two columns and the in-bounds entry \<open>(0,1,5)\<close>:
  \<open>CSCMatrix::setFromTriplet\<close> writes \<open>rowPointer[2]\<close> in a vector of two elements, and
  \<open>CSRMatrix::setFromTriplet\<close> writes \<open>rowIndex[1]\<close> in a vector of one element. Neither
  conversion gets as far as a pointer array.
\<close>

theorem setFromTriplet_wide_matrix_writes_out_of_range:
  "CSCMatrix
     \<lparr>numRows = 1, numCols = 2, t_rowIndex = [0], t_colIndex = [1], t_value = [5 :: real]\<rparr>
   = None \<and>
   CSRMatrix
     \<lparr>numRows = 1, numCols = 2, t_rowIndex = [0], t_colIndex = [1], t_value = [5 :: real]\<rparr>
   = None"
  by code_simp

end
